theory Spec2Isabelle
  imports Complex_Main
begin

section \<open>Numbers and vectors\<close>

text \<open>
  JavaScript numbers are modelled as real numbers: every arithmetic operation of the
  source is read as the exact operation, so rounding, infinities and NaN are outside
  the model. A \<open>pc.Vec3\<close> is a record of three numbers; the operations below are the ones
  of the PlayCanvas API that the source calls (\<open>sub2\<close>, \<open>add\<close>, \<open>sub\<close>, \<open>mulScalar\<close>,
  \<open>length\<close>, \<open>distance\<close>, \<open>normalize\<close>).
\<close>

record vec3 =
  vec_x :: real
  vec_y :: real
  vec_z :: real

definition vec_add :: "vec3 \<Rightarrow> vec3 \<Rightarrow> vec3" where
  "vec_add a b = \<lparr>vec_x = vec_x a + vec_x b, vec_y = vec_y a + vec_y b, vec_z = vec_z a + vec_z b\<rparr>"

definition vec_sub :: "vec3 \<Rightarrow> vec3 \<Rightarrow> vec3" where
  "vec_sub a b = \<lparr>vec_x = vec_x a - vec_x b, vec_y = vec_y a - vec_y b, vec_z = vec_z a - vec_z b\<rparr>"

definition mulScalar :: "vec3 \<Rightarrow> real \<Rightarrow> vec3" where
  "mulScalar a k = \<lparr>vec_x = vec_x a * k, vec_y = vec_y a * k, vec_z = vec_z a * k\<rparr>"

definition vec_length :: "vec3 \<Rightarrow> real" where
  "vec_length a = sqrt (vec_x a * vec_x a + vec_y a * vec_y a + vec_z a * vec_z a)"

definition vec_distance :: "vec3 \<Rightarrow> vec3 \<Rightarrow> real" where
  "vec_distance a b = vec_length (vec_sub a b)"

definition normalize :: "vec3 \<Rightarrow> vec3" where
  "normalize a =
     (let lengthSq = vec_x a * vec_x a + vec_y a * vec_y a + vec_z a * vec_z a in
      if lengthSq > 0 then mulScalar a (1 / sqrt lengthSq) else a)"

section \<open>Wall boundary system (wall-system.js)\<close>

record point2 =
  pt_x :: real
  pt_z :: real

record segment =
  seg_name :: string
  seg_start :: point2
  seg_end :: point2
  seg_color :: nat

text \<open>The shipped contents of \<open>WALL_SEGMENTS\<close>.\<close>

definition WALL_SEGMENTS_initial :: "segment list" where
  "WALL_SEGMENTS_initial =
    [\<lparr>seg_name = ''wall_0'',
      seg_start = \<lparr>pt_x = - 0.5768624544143677, pt_z = 154.2949676513672\<rparr>,
      seg_end = \<lparr>pt_x = - 2.19569993019104, pt_z = 165.52789306640625\<rparr>,
      seg_color = 65280\<rparr>,
     \<lparr>seg_name = ''wall_1'',
      seg_start = \<lparr>pt_x = - 1.189516305923462, pt_z = 165.15744018554688\<rparr>,
      seg_end = \<lparr>pt_x = - 12.322547912597656, pt_z = 163.4005889892578\<rparr>,
      seg_color = 65280\<rparr>,
     \<lparr>seg_name = ''wall_2'',
      seg_start = \<lparr>pt_x = - 12.319146156311035, pt_z = 163.25062561035156\<rparr>,
      seg_end = \<lparr>pt_x = - 11.748414993286133, pt_z = 154.12403869628906\<rparr>,
      seg_color = 65280\<rparr>]"

text \<open>\<open>lineSegmentsIntersect(x1, y1, x2, y2, x3, y3, x4, y4)\<close>, line by line.\<close>

definition lineSegmentsIntersect ::
  "real \<Rightarrow> real \<Rightarrow> real \<Rightarrow> real \<Rightarrow> real \<Rightarrow> real \<Rightarrow> real \<Rightarrow> real \<Rightarrow> bool" where
  "lineSegmentsIntersect x1 y1 x2 y2 x3 y3 x4 y4 =
    (let denom = (x1 - x2) * (y3 - y4) - (y1 - y2) * (x3 - x4) in
     if \<bar>denom\<bar> < 0.0001 then False
     else
       let t = ((x1 - x3) * (y3 - y4) - (y1 - y3) * (x3 - x4)) / denom;
           u = - ((x1 - x2) * (y1 - y3) - (y1 - y2) * (x1 - x3)) / denom
       in t \<ge> 0 \<and> t \<le> 1 \<and> u \<ge> 0 \<and> u \<le> 1)"

text \<open>\<open>checkWallCollision(oldPos, newPos)\<close>: the \<open>for\<close> loop over the segments, returning
  at the first one the movement crosses.\<close>

fun checkWallCollision :: "segment list \<Rightarrow> vec3 \<Rightarrow> vec3 \<Rightarrow> bool" where
  "checkWallCollision [] oldPos newPos = False"
| "checkWallCollision (seg # segs) oldPos newPos =
     (if lineSegmentsIntersect (vec_x oldPos) (vec_z oldPos) (vec_x newPos) (vec_z newPos)
           (pt_x (seg_start seg)) (pt_z (seg_start seg)) (pt_x (seg_end seg)) (pt_z (seg_end seg))
      then True
      else checkWallCollision segs oldPos newPos)"

text \<open>
  The quantities the specification names for the intersection test: the denominator
  \<open>d\<close>, and the parametric positions \<open>t\<close> along \<open>P1P2\<close> and \<open>u\<close> along \<open>P3P4\<close> of the
  point where the two carrier lines meet.
\<close>

definition spec_denominator ::
  "real \<Rightarrow> real \<Rightarrow> real \<Rightarrow> real \<Rightarrow> real \<Rightarrow> real \<Rightarrow> real \<Rightarrow> real \<Rightarrow> real" where
  "spec_denominator x1 y1 x2 y2 x3 y3 x4 y4 = (x1 - x2) * (y3 - y4) - (y1 - y2) * (x3 - x4)"

definition spec_param_t ::
  "real \<Rightarrow> real \<Rightarrow> real \<Rightarrow> real \<Rightarrow> real \<Rightarrow> real \<Rightarrow> real \<Rightarrow> real \<Rightarrow> real" where
  "spec_param_t x1 y1 x2 y2 x3 y3 x4 y4 =
     ((x1 - x3) * (y3 - y4) - (y1 - y3) * (x3 - x4)) / spec_denominator x1 y1 x2 y2 x3 y3 x4 y4"

definition spec_param_u ::
  "real \<Rightarrow> real \<Rightarrow> real \<Rightarrow> real \<Rightarrow> real \<Rightarrow> real \<Rightarrow> real \<Rightarrow> real \<Rightarrow> real" where
  "spec_param_u x1 y1 x2 y2 x3 y3 x4 y4 =
     - ((x1 - x2) * (y1 - y3) - (y1 - y2) * (x1 - x3)) / spec_denominator x1 y1 x2 y2 x3 y3 x4 y4"

section \<open>Mesh collision system (collision-system.js)\<close>

text \<open>
  The physics engine is an external capability. \<open>raycastFirst(from, to)\<close> either throws
  (\<open>Inl\<close> carries the error message) or returns \<open>null\<close> (\<open>Inr None\<close>) or a result object
  with the entity that was hit and the hit point.
\<close>

record raycast_result =
  rr_entity :: "nat option"
  rr_point :: vec3

type_synonym raycastFirst = "vec3 \<Rightarrow> vec3 \<Rightarrow> string + raycast_result option"

record CollisionSystem =
  collisionMesh :: "nat option"
  collisionEnabled :: bool
  debugVisible :: bool
  physicsReady :: bool
  collisionRadius :: real
  direction :: vec3
  console :: "string list"

text \<open>The constructor: collision starts disabled, with a 30 cm clearance radius.\<close>

definition CollisionSystem_new :: CollisionSystem where
  "CollisionSystem_new =
     \<lparr>collisionMesh = None, collisionEnabled = False, debugVisible = False,
      physicsReady = False, collisionRadius = 0.3,
      direction = \<lparr>vec_x = 0, vec_y = 0, vec_z = 0\<rparr>, console = []\<rparr>"

text \<open>
  \<open>checkCollision(currentPos, newPos)\<close>. The result is the returned boolean together
  with the object after the call: the scratch vector \<open>_direction\<close> is overwritten, and a
  raycast that throws is written to the console.
\<close>

definition checkCollision ::
  "raycastFirst \<Rightarrow> CollisionSystem \<Rightarrow> vec3 \<Rightarrow> vec3 \<Rightarrow> bool \<times> CollisionSystem" where
  "checkCollision raycast this currentPos newPos =
    (if \<not> collisionEnabled this \<or> collisionMesh this = None \<or> \<not> physicsReady this
     then (False, this)
     else
       let this1 = this\<lparr>direction := vec_sub newPos currentPos\<rparr>;
           distance = vec_length (direction this1)
       in if distance = 0 then (False, this1)
          else
            let this2 = this1\<lparr>direction := normalize (direction this1)\<rparr> in
            case raycast currentPos newPos of
              Inl err \<Rightarrow> (False, this2\<lparr>console := console this2 @ [''Raycast error: '' @ err]\<rparr>)
            | Inr None \<Rightarrow> (False, this2)
            | Inr (Some result) \<Rightarrow>
                (if rr_entity result \<noteq> None
                 then (if vec_distance (rr_point result) currentPos < collisionRadius this2
                       then (True, this2) else (False, this2))
                 else (False, this2)))"

text \<open>\<open>toggleCollision()\<close>, bound to the C key.\<close>

definition toggleCollision :: "CollisionSystem \<Rightarrow> CollisionSystem" where
  "toggleCollision this = this\<lparr>collisionEnabled := \<not> collisionEnabled this\<rparr>"

subsection \<open>The physics-readiness handshake\<close>












section \<open>Navigation loop (main.js, the \<open>update\<close> handler)\<close>

text \<open>
  The closure variables the handler reads and writes are gathered in one record. The
  camera's \<open>forward\<close> and \<open>right\<close> vectors come from its orientation, which the handler does
  not change. The portal system's module is not part of the sources at hand: it is a
  parameter, an object of some type \<open>'p\<close> with the three methods the handler calls. The
  field \<open>consulted\<close> is bookkeeping of the model: it lists, in order, the collision
  sources whose check was evaluated.
\<close>

record keys =
  ShiftLeft :: bool
  KeyW :: bool
  KeyS :: bool
  KeyA :: bool
  KeyD :: bool
  KeyQ :: bool
  KeyE :: bool

record movement =
  mv_forward :: real
  mv_right :: real
  mv_up :: bool
  mv_down :: bool

record smooth =
  sm_forward :: real
  sm_right :: real

record nav_config =
  moveSpeed :: real
  maxMoveSpeed :: real
  maxY :: real

datatype arbiter = Mesh | Wall | Portal

record 'p portal_methods =
  checkMovementBlocked :: "'p \<Rightarrow> vec3 \<Rightarrow> vec3 \<Rightarrow> bool \<times> 'p"
  portal_update :: "'p \<Rightarrow> real \<Rightarrow> 'p"
  portal_checkCollision :: "'p \<Rightarrow> vec3 \<Rightarrow> 'p"

record 'p nav =
  cameraPosition :: vec3
  cameraForward :: vec3
  cameraRight :: vec3
  flyMode :: bool
  wallCollisionEnabled :: bool
  pressed :: keys
  joystick :: movement
  smoothMovement :: smooth
  collisionSystem :: CollisionSystem
  portalSystem :: "'p option"
  WALL_SEGMENTS :: "segment list"
  consulted :: "arbiter list"

text \<open>The candidate position \<open>newPos\<close>: keyboard, joystick and vertical movement.\<close>

definition moveSpeedDt :: "nav_config \<Rightarrow> 'p nav \<Rightarrow> real \<Rightarrow> real" where
  "moveSpeedDt cfg s dt = (if ShiftLeft (pressed s) then maxMoveSpeed cfg else moveSpeed cfg) * dt * 60"

definition flatten :: "bool \<Rightarrow> vec3 \<Rightarrow> vec3" where
  "flatten fly v = (if \<not> fly then normalize (v\<lparr>vec_y := 0\<rparr>) else v)"

definition candidate :: "nav_config \<Rightarrow> 'p nav \<Rightarrow> real \<Rightarrow> vec3" where
  "candidate cfg s dt =
    (let msd = moveSpeedDt cfg s dt;
         forward = flatten (flyMode s) (cameraForward s);
         right = flatten (flyMode s) (cameraRight s);
         k = pressed s;
         m = joystick s;
         p0 = cameraPosition s;
         p1 = (if KeyW k then vec_add p0 (mulScalar forward msd) else p0);
         p2 = (if KeyS k then vec_sub p1 (mulScalar forward msd) else p1);
         p3 = (if KeyA k then vec_sub p2 (mulScalar right msd) else p2);
         p4 = (if KeyD k then vec_add p3 (mulScalar right msd) else p3);
         p5 = (if mv_forward m \<noteq> 0 \<or> mv_right m \<noteq> 0
               then vec_add (vec_add p4 (mulScalar forward (msd * mv_forward m)))
                            (mulScalar right (msd * mv_right m))
               else p4)
     in if flyMode s
        then
          (let p6 = (if KeyQ k then p5\<lparr>vec_y := min (vec_y p5 + msd) (maxY cfg)\<rparr> else p5)
           in if KeyE k then p6\<lparr>vec_y := vec_y p6 - msd\<rparr> else p6)
        else
          (let p6 = (if KeyQ k \<or> mv_up m
                     then p5\<lparr>vec_y := min (vec_y p5 + msd * 0.5) (maxY cfg)\<rparr> else p5)
           in if KeyE k \<or> mv_down m then p6\<lparr>vec_y := vec_y p6 - msd * 0.5\<rparr> else p6))"

text \<open>What each of the three early returns does before returning.\<close>

definition reject :: "'p nav \<Rightarrow> 'p nav" where
  "reject s = s\<lparr>smoothMovement := \<lparr>sm_forward = 0, sm_right = 0\<rparr>\<rparr>"

text \<open>The tail of the handler: the position is committed and the portal system is
  updated. (The text of the position display is not modelled.)\<close>

definition commit :: "'p portal_methods \<Rightarrow> vec3 \<Rightarrow> real \<Rightarrow> 'p nav \<Rightarrow> 'p nav" where
  "commit pm newPos dt s =
    (let s1 = s\<lparr>cameraPosition := newPos\<rparr> in
     case portalSystem s1 of
       None \<Rightarrow> s1
     | Some p \<Rightarrow>
         s1\<lparr>portalSystem := Some (portal_checkCollision pm (portal_update pm p dt) (cameraPosition s1))\<rparr>)"

text \<open>The \<open>update\<close> handler for one frame of length \<open>dt\<close>.\<close>

definition update :: "nav_config \<Rightarrow> raycastFirst \<Rightarrow> 'p portal_methods \<Rightarrow> real \<Rightarrow> 'p nav \<Rightarrow> 'p nav" where
  "update cfg raycast pm dt s =
    (let currentPos = cameraPosition s;
         newPos = candidate cfg s dt
     in if \<not> flyMode s
        then
          (let (hit, cs) = checkCollision raycast (collisionSystem s) currentPos newPos;
               s1 = s\<lparr>collisionSystem := cs, consulted := consulted s @ [Mesh]\<rparr>
           in if hit then reject s1
              else
                let s2 = (if wallCollisionEnabled s1 then s1\<lparr>consulted := consulted s1 @ [Wall]\<rparr> else s1)
                in if wallCollisionEnabled s1 \<and> checkWallCollision (WALL_SEGMENTS s1) currentPos newPos
                   then reject s2
                   else
                     (case portalSystem s2 of
                        None \<Rightarrow> commit pm newPos dt s2
                      | Some p \<Rightarrow>
                          let (blocked, p') = checkMovementBlocked pm p currentPos newPos;
                              s3 = s2\<lparr>portalSystem := Some p', consulted := consulted s2 @ [Portal]\<rparr>
                          in if blocked then reject s3 else commit pm newPos dt s3))
        else commit pm newPos dt s)"

text \<open>
  A portal system that only records the calls it receives, with a fixed verdict for
  every movement, and a scene for evaluating one frame: the camera at the origin looking
  along \<open>z\<close>, the W key held, one wall across the path at \<open>z = 0.03125\<close>, the shipped
  walking speed, and a frame of one sixtieth of a second.
\<close>

datatype portal_call = Called_update real | Called_checkCollision vec3

definition recording_portal :: "bool \<Rightarrow> (portal_call list) portal_methods" where
  "recording_portal verdict =
     \<lparr>checkMovementBlocked = (\<lambda>p a b. (verdict, p)),
      portal_update = (\<lambda>p dt. p @ [Called_update dt]),
      portal_checkCollision = (\<lambda>p pos. p @ [Called_checkCollision pos])\<rparr>"

definition shipped_config :: nav_config where
  "shipped_config = \<lparr>moveSpeed = 0.0625, maxMoveSpeed = 0.125, maxY = 10\<rparr>"

definition no_hit :: raycastFirst where
  "no_hit a b = Inr None"

definition origin :: vec3 where
  "origin = \<lparr>vec_x = 0, vec_y = 0, vec_z = 0\<rparr>"

definition scene :: "bool \<Rightarrow> bool \<Rightarrow> (portal_call list) option \<Rightarrow> (portal_call list) nav" where
  "scene fly walls portal =
     \<lparr>cameraPosition = origin,
      cameraForward = \<lparr>vec_x = 0, vec_y = 0, vec_z = 1\<rparr>,
      cameraRight = \<lparr>vec_x = 1, vec_y = 0, vec_z = 0\<rparr>,
      flyMode = fly,
      wallCollisionEnabled = walls,
      pressed = \<lparr>ShiftLeft = False, KeyW = True, KeyS = False, KeyA = False, KeyD = False,
                 KeyQ = False, KeyE = False\<rparr>,
      joystick = \<lparr>mv_forward = 0, mv_right = 0, mv_up = False, mv_down = False\<rparr>,
      smoothMovement = \<lparr>sm_forward = 0, sm_right = 0\<rparr>,
      collisionSystem = CollisionSystem_new,
      portalSystem = portal,
      WALL_SEGMENTS = [\<lparr>seg_name = ''wall_0'', seg_start = \<lparr>pt_x = - 1, pt_z = 0.03125\<rparr>,
                        seg_end = \<lparr>pt_x = 1, pt_z = 0.03125\<rparr>, seg_color = 65280\<rparr>],
      consulted = []\<rparr>"

definition step_ahead :: vec3 where
  "step_ahead = \<lparr>vec_x = 0, vec_y = 0, vec_z = 0.0625\<rparr>"


section \<open>Time toggle system (time-toggle-system.js)\<close>

text \<open>
  The object's fields are those of the constructor. The alignment matrices only place a
  loaded entity in space and are left out, as is the button of the user interface.

  Objects created at run time (assets and entities) are numbered handles; \<open>entityEnabled\<close>
  is the scene graph's \<open>enabled\<close> flag of each entity that has been created.

  The methods are \<open>async\<close>. Each event below is one task of the browser's event loop: a
  call from outside, a signal of the asset loader, a tick of a polling interval, an
  animation frame, or the cooldown timeout. A task runs to the end, together with the
  continuations of every \<open>await\<close> whose promise is settled during it. What is suspended
  between tasks is held in the state:
  \<^item> \<open>loader\<close>: the loads in flight, each with the asset, the time state, and who awaits
    the promise that the asset's \<open>ready\<close> or \<open>error\<close> signal settles;
  \<^item> \<open>pollers\<close>: the \<open>setInterval\<close> loops of callers waiting for a load in flight;
  \<^item> \<open>frameCallbacks\<close>: the callbacks registered with \<open>requestAnimationFrame\<close>;
  \<^item> \<open>cooldownTimers\<close>: the number of pending \<open>setTimeout\<close> callbacks that release the
    lock.
  The remaining fields record what the outside observes: the calls of
  \<open>app.assets.load\<close>, how each awaited promise was settled, the completed switches
  (new and previous time state, the arguments of \<open>onTimeChange\<close>) and the console.
\<close>

record time_config =
  time_id :: string
  time_label :: string
  time_path :: string

record toggle_config =
  cfg_times :: "time_config list"
  defaultTime :: string

datatype load_state = Loading | Loaded | LoadError

datatype waiter =
    AwaitInitialize
  | AwaitSwitch string
  | AwaitCaller nat

text \<open>What a lookup in \<open>splatEntities\<close> yields: an entity stored there, or a member
  inherited from \<open>Object.prototype\<close>, or nothing.\<close>

datatype js_ref = Entity nat | Inherited

datatype outcome = Resolved "js_ref option" | Rejected string

datatype frame_callback = Outer js_ref string | Inner js_ref string

record TimeToggleSystem =
  tt_times :: "time_config list"
  activeTimeId :: string
  splatEntities :: "string \<rightharpoonup> nat"
  splatAssets :: "string \<rightharpoonup> nat"
  loadingStates :: "string \<rightharpoonup> load_state"
  switchLock :: bool
  entityEnabled :: "nat \<rightharpoonup> bool"
  nextHandle :: nat
  loader :: "(nat \<times> string \<times> waiter) list"
  pollers :: "(string \<times> waiter) list"
  frameCallbacks :: "frame_callback list"
  cooldownTimers :: nat
  loadRequests :: "(nat \<times> string) list"
  settled :: "(waiter \<times> outcome) list"
  transitions :: "(string \<times> string) list"
  logged :: "string list"

definition TimeToggleSystem_new :: "toggle_config \<Rightarrow> TimeToggleSystem" where
  "TimeToggleSystem_new config =
     \<lparr>tt_times = cfg_times config, activeTimeId = defaultTime config,
      splatEntities = Map.empty, splatAssets = Map.empty, loadingStates = Map.empty,
      switchLock = False, entityEnabled = Map.empty, nextHandle = 0,
      loader = [], pollers = [], frameCallbacks = [], cooldownTimers = 0,
      loadRequests = [], settled = [], transitions = [], logged = []\<rparr>"

definition log :: "string \<Rightarrow> TimeToggleSystem \<Rightarrow> TimeToggleSystem" where
  "log msg this = this\<lparr>logged := logged this @ [msg]\<rparr>"

text \<open>
  \<open>loadingStates\<close>, \<open>splatEntities\<close> and \<open>splatAssets\<close> are plain objects used as
  dictionaries, so the members of \<open>Object.prototype\<close> show through.

  Storing a string under the key \<open>__proto__\<close> does not create an entry: that key names
  the prototype accessor, which ignores a value that is not an object. So the state of a
  time state named \<open>__proto__\<close> is never recorded. Reading a state under a name that has
  no entry yields \<open>undefined\<close> or an inherited member, never \<open>'loaded'\<close> or \<open>'loading'\<close>:
  for the comparisons of the source both are the absent entry of the map.

  Reading \<open>splatEntities\<close> under a name that has no entry yields an inherited member when
  the name is one of \<open>Object.prototype\<close>'s, and that member is an object or a function: it
  passes the test for a missing entity, and setting its \<open>enabled\<close> property touches no
  entity. (Storing an entity under \<open>__proto__\<close> makes it the object's prototype, and
  reading \<open>__proto__\<close> yields it again, as the map does; what else the object then
  inherits from the entity is not modelled.)
\<close>

definition js_set :: "(string \<rightharpoonup> 'v) \<Rightarrow> string \<Rightarrow> 'v \<Rightarrow> (string \<rightharpoonup> 'v)" where
  "js_set obj key v = (if key = ''__proto__'' then obj else obj(key \<mapsto> v))"

definition object_prototype_keys :: "string list" where
  "object_prototype_keys =
     [''__proto__'', ''constructor'', ''hasOwnProperty'', ''isPrototypeOf'',
      ''propertyIsEnumerable'', ''toLocaleString'', ''toString'', ''valueOf'',
      ''__defineGetter__'', ''__defineSetter__'', ''__lookupGetter__'', ''__lookupSetter__'']"

definition js_get :: "(string \<rightharpoonup> nat) \<Rightarrow> string \<Rightarrow> js_ref option" where
  "js_get obj key =
     (case obj key of
        Some entity \<Rightarrow> Some (Entity entity)
      | None \<Rightarrow> if key \<in> set object_prototype_keys then Some Inherited else None)"

fun set_enabled :: "js_ref \<Rightarrow> bool \<Rightarrow> (nat \<rightharpoonup> bool) \<Rightarrow> (nat \<rightharpoonup> bool)" where
  "set_enabled (Entity entity) b enabled = enabled(entity \<mapsto> b)"
| "set_enabled Inherited b enabled = enabled"

text \<open>\<open>switchToTime\<close> from the lookup of the two entities to the registration of the
  frame callback: the target is shown first; the closure keeps the source entity.\<close>

definition switch_continue :: "string \<Rightarrow> TimeToggleSystem \<Rightarrow> TimeToggleSystem" where
  "switch_continue timeId this =
    (case js_get (splatEntities this) (activeTimeId this) of
       None \<Rightarrow> (log ''Missing entities for transition'' this)\<lparr>switchLock := False\<rparr>
     | Some fromEntity \<Rightarrow>
        (case js_get (splatEntities this) timeId of
           None \<Rightarrow> (log ''Missing entities for transition'' this)\<lparr>switchLock := False\<rparr>
         | Some toEntity \<Rightarrow>
             this\<lparr>entityEnabled := set_enabled toEntity True (entityEnabled this),
                  frameCallbacks := frameCallbacks this @ [Outer fromEntity timeId]\<rparr>))"

text \<open>\<open>switchToTime\<close> after the second frame: the active id is assigned, the change is
  notified, and the release of the lock is scheduled.\<close>

definition switch_finish :: "string \<Rightarrow> TimeToggleSystem \<Rightarrow> TimeToggleSystem" where
  "switch_finish timeId this =
    (let previousTime = activeTimeId this;
         this1 = this\<lparr>activeTimeId := timeId\<rparr>;
         this2 = log (''Switched to time state: '' @ timeId) this1;
         this3 = this2\<lparr>transitions := transitions this2 @ [(timeId, previousTime)]\<rparr>
     in this3\<lparr>cooldownTimers := cooldownTimers this3 + 1\<rparr>)"

text \<open>What runs when a promise returned by \<open>loadTimeState\<close> is settled: \<open>initialize\<close>
  returns the active entity, or fails; \<open>switchToTime\<close> goes on after its \<open>await\<close>, or
  fails there with the lock still set; any other caller gets the outcome.\<close>

definition settle :: "waiter \<Rightarrow> outcome \<Rightarrow> TimeToggleSystem \<Rightarrow> TimeToggleSystem" where
  "settle w out this =
    (case w of
       AwaitInitialize \<Rightarrow>
         (case out of
            Resolved v \<Rightarrow>
              this\<lparr>settled := settled this
                 @ [(AwaitInitialize, Resolved (js_get (splatEntities this) (activeTimeId this)))]\<rparr>
          | Rejected err \<Rightarrow> this\<lparr>settled := settled this @ [(AwaitInitialize, Rejected err)]\<rparr>)
     | AwaitSwitch timeId \<Rightarrow>
         (case out of
            Resolved v \<Rightarrow> switch_continue timeId this
          | Rejected err \<Rightarrow> this\<lparr>settled := settled this @ [(AwaitSwitch timeId, Rejected err)]\<rparr>)
     | AwaitCaller c \<Rightarrow> this\<lparr>settled := settled this @ [(AwaitCaller c, out)]\<rparr>)"

text \<open>\<open>loadTimeState(timeId)\<close>, called by the one who awaits its promise.\<close>

definition loadTimeState :: "string \<Rightarrow> waiter \<Rightarrow> TimeToggleSystem \<Rightarrow> TimeToggleSystem" where
  "loadTimeState timeId w this =
    (case find (\<lambda>t. time_id t = timeId) (tt_times this) of
       None \<Rightarrow> settle w (Resolved None) (log (''Unknown time state: '' @ timeId) this)
     | Some timeConfig \<Rightarrow>
         if loadingStates this timeId = Some Loaded
         then settle w (Resolved (js_get (splatEntities this) timeId))
                (log (''Time state '' @ timeId @ '' already loaded'') this)
         else if loadingStates this timeId = Some Loading
         then (log (''Time state '' @ timeId @ '' already loading, waiting...'') this)
                \<lparr>pollers := pollers this @ [(timeId, w)]\<rparr>
         else
           let this1 = this\<lparr>loadingStates := js_set (loadingStates this) timeId Loading\<rparr>;
               this2 = log (''Loading time state: '' @ timeId) this1;
               asset = nextHandle this2
           in this2\<lparr>nextHandle := asset + 1,
                    splatAssets := (splatAssets this2)(timeId \<mapsto> asset),
                    loader := loader this2 @ [(asset, timeId, w)],
                    loadRequests := loadRequests this2 @ [(asset, timeId)]\<rparr>)"

text \<open>The asset's \<open>ready\<close> callback.\<close>

definition assetReady :: "nat \<Rightarrow> TimeToggleSystem \<Rightarrow> TimeToggleSystem" where
  "assetReady asset this =
    (case find (\<lambda>l. fst l = asset) (loader this) of
       None \<Rightarrow> this
     | Some (a, timeId, w) \<Rightarrow>
         let entity = nextHandle this;
             this1 = this\<lparr>nextHandle := entity + 1,
                          loader := filter (\<lambda>l. fst l \<noteq> asset) (loader this),
                          entityEnabled := (entityEnabled this)(entity \<mapsto> (timeId = activeTimeId this)),
                          splatEntities := (splatEntities this)(timeId \<mapsto> entity),
                          loadingStates := js_set (loadingStates this) timeId Loaded\<rparr>;
             this2 = log (''Time state loaded: '' @ timeId) this1
         in settle w (Resolved (Some (Entity entity))) this2)"

text \<open>The asset's \<open>error\<close> callback.\<close>

definition assetError :: "nat \<Rightarrow> string \<Rightarrow> TimeToggleSystem \<Rightarrow> TimeToggleSystem" where
  "assetError asset err this =
    (case find (\<lambda>l. fst l = asset) (loader this) of
       None \<Rightarrow> this
     | Some (a, timeId, w) \<Rightarrow>
         let this1 = this\<lparr>loader := filter (\<lambda>l. fst l \<noteq> asset) (loader this)\<rparr>;
             this2 = log (''Error loading time state '' @ timeId @ '': '' @ err) this1;
             this3 = this2\<lparr>loadingStates := js_set (loadingStates this2) timeId LoadError\<rparr>
         in settle w (Rejected err) this3)"

text \<open>One tick of the polling interval number \<open>i\<close>.\<close>

definition pollTick :: "nat \<Rightarrow> TimeToggleSystem \<Rightarrow> TimeToggleSystem" where
  "pollTick i this =
    (if i < length (pollers this)
     then
       (case pollers this ! i of
          (timeId, w) \<Rightarrow>
            if loadingStates this timeId = Some Loaded
            then settle w (Resolved (js_get (splatEntities this) timeId))
                   (this\<lparr>pollers := take i (pollers this) @ drop (Suc i) (pollers this)\<rparr>)
            else this)
     else this)"

text \<open>\<open>switchToTime(timeId)\<close> up to its first \<open>await\<close>.\<close>

definition switchToTime :: "string \<Rightarrow> TimeToggleSystem \<Rightarrow> TimeToggleSystem" where
  "switchToTime timeId this =
    (if timeId = activeTimeId this then this
     else if switchLock this then log ''Switch locked, ignoring rapid switch request'' this
     else
       let this1 = this\<lparr>switchLock := True\<rparr>;
           this2 = log (''Switching from '' @ activeTimeId this1 @ '' to '' @ timeId) this1
       in if loadingStates this2 timeId \<noteq> Some Loaded
          then loadTimeState timeId (AwaitSwitch timeId) this2
          else switch_continue timeId this2)"

definition initialize :: "TimeToggleSystem \<Rightarrow> TimeToggleSystem" where
  "initialize this = loadTimeState (activeTimeId this) AwaitInitialize this"

definition toggle :: "TimeToggleSystem \<Rightarrow> TimeToggleSystem" where
  "toggle this =
    (case find (\<lambda>t. time_id t \<noteq> activeTimeId this) (tt_times this) of
       None \<Rightarrow> this
     | Some other \<Rightarrow> if time_id other \<noteq> [] then switchToTime (time_id other) this else this)"

text \<open>\<open>findIndex\<close>, with \<open>-1\<close> when nothing is found.\<close>

fun findIndex :: "('a \<Rightarrow> bool) \<Rightarrow> 'a list \<Rightarrow> int" where
  "findIndex P [] = - 1"
| "findIndex P (x # xs) =
     (if P x then 0 else (let i = findIndex P xs in if i < 0 then - 1 else i + 1))"

definition handleKeyboard :: "string \<Rightarrow> TimeToggleSystem \<Rightarrow> TimeToggleSystem" where
  "handleKeyboard keyCode this =
    (let currentIndex = findIndex (\<lambda>t. time_id t = activeTimeId this) (tt_times this) in
     if keyCode = ''BracketLeft''
     then
       (let newIndex = max 0 (currentIndex - 1) in
        if newIndex \<noteq> currentIndex \<and> nat newIndex < length (tt_times this)
        then switchToTime (time_id (tt_times this ! nat newIndex)) this else this)
     else if keyCode = ''BracketRight''
     then
       (let newIndex = min (int (length (tt_times this)) - 1) (currentIndex + 1) in
        if newIndex \<noteq> currentIndex \<and> 0 \<le> newIndex
        then switchToTime (time_id (tt_times this ! nat newIndex)) this else this)
     else this)"

text \<open>An animation frame runs the callbacks registered before it, in order. The outer
  callback registers the inner one for the next frame; the inner one hides the source
  entity and resolves the promise \<open>switchToTime\<close> awaits.\<close>

fun run_callback :: "frame_callback \<Rightarrow> TimeToggleSystem \<Rightarrow> TimeToggleSystem" where
  "run_callback (Outer fromEntity timeId) this =
     this\<lparr>frameCallbacks := frameCallbacks this @ [Inner fromEntity timeId]\<rparr>"
| "run_callback (Inner fromEntity timeId) this =
     switch_finish timeId (this\<lparr>entityEnabled := set_enabled fromEntity False (entityEnabled this)\<rparr>)"

definition animationFrame :: "TimeToggleSystem \<Rightarrow> TimeToggleSystem" where
  "animationFrame this =
     fold run_callback (frameCallbacks this) (this\<lparr>frameCallbacks := []\<rparr>)"

definition cooldownTimeout :: "TimeToggleSystem \<Rightarrow> TimeToggleSystem" where
  "cooldownTimeout this =
     (if cooldownTimers this > 0
      then this\<lparr>cooldownTimers := cooldownTimers this - 1, switchLock := False\<rparr>
      else this)"

datatype event =
    CallInitialize
  | CallSwitchToTime string
  | CallLoadTimeState string nat
  | CallToggle
  | CallHandleKeyboard string
  | AssetReady nat
  | AssetError nat string
  | PollTick nat
  | AnimationFrame
  | CooldownTimeout

fun step :: "event \<Rightarrow> TimeToggleSystem \<Rightarrow> TimeToggleSystem" where
  "step CallInitialize this = initialize this"
| "step (CallSwitchToTime timeId) this = switchToTime timeId this"
| "step (CallLoadTimeState timeId c) this = loadTimeState timeId (AwaitCaller c) this"
| "step CallToggle this = toggle this"
| "step (CallHandleKeyboard keyCode) this = handleKeyboard keyCode this"
| "step (AssetReady asset) this = assetReady asset this"
| "step (AssetError asset err) this = assetError asset err this"
| "step (PollTick i) this = pollTick i this"
| "step AnimationFrame this = animationFrame this"
| "step CooldownTimeout this = cooldownTimeout this"

fun run :: "event list \<Rightarrow> TimeToggleSystem \<Rightarrow> TimeToggleSystem" where
  "run [] this = this"
| "run (e # es) this = run es (step e this)"

subsection \<open>Notions used in the properties\<close>

fun is_switch :: "waiter \<Rightarrow> bool" where
  "is_switch (AwaitSwitch timeId) = True"
| "is_switch w = False"

text \<open>The switch protocols in progress: each one awaits a load, polls for one, or waits
  for a frame.\<close>

definition switches_in_flight :: "TimeToggleSystem \<Rightarrow> nat" where
  "switches_in_flight this =
     length (filter (\<lambda>l. is_switch (snd (snd l))) (loader this))
     + length (filter (\<lambda>p. is_switch (snd p)) (pollers this))
     + length (frameCallbacks this)"

definition holders :: "TimeToggleSystem \<Rightarrow> nat" where
  "holders this = switches_in_flight this + cooldownTimers this"

definition lock_inv :: "TimeToggleSystem \<Rightarrow> bool" where
  "lock_inv this \<longleftrightarrow> holders this \<le> 1 \<and> (switchLock this \<or> holders this = 0)"

text \<open>What must hold when a promise is settled for the lock invariant to hold afterwards:
  a switch protocol that resumes is the only holder of the lock.\<close>

definition ready_for :: "waiter \<Rightarrow> TimeToggleSystem \<Rightarrow> bool" where
  "ready_for w s \<longleftrightarrow> (if is_switch w then holders s = 0 \<and> switchLock s else lock_inv s)"

text \<open>The lock is set and nobody is left to release it.\<close>

definition stuck :: "TimeToggleSystem \<Rightarrow> bool" where
  "stuck this \<longleftrightarrow> switchLock this \<and> holders this = 0"

text \<open>Two states with the same active time state and the same completed switches,
  the first of them stuck.\<close>

definition same_switch_state :: "TimeToggleSystem \<Rightarrow> TimeToggleSystem \<Rightarrow> bool" where
  "same_switch_state s' s \<longleftrightarrow>
     stuck s' \<and> activeTimeId s' = activeTimeId s \<and> transitions s' = transitions s"

text \<open>The declared time states.\<close>

definition declared :: "TimeToggleSystem \<Rightarrow> string set" where
  "declared this = time_id ` set (tt_times this)"

text \<open>The loads in flight are for different time states, each declared and marked as
  loading.\<close>

definition loads_inv :: "TimeToggleSystem \<Rightarrow> bool" where
  "loads_inv this \<longleftrightarrow>
     distinct (map (\<lambda>l. fst (snd l)) (loader this))
     \<and> (\<forall>l \<in> set (loader this).
           loadingStates this (fst (snd l)) = Some Loading \<and> fst (snd l) \<in> declared this)"

text \<open>\<open>initialize\<close> has returned.\<close>

fun is_initialized :: "waiter \<times> outcome \<Rightarrow> bool" where
  "is_initialized (AwaitInitialize, Resolved v) = True"
| "is_initialized p = False"

definition initialization_complete :: "TimeToggleSystem \<Rightarrow> bool" where
  "initialization_complete this = list_ex is_initialized (settled this)"

text \<open>The time states that are shown.\<close>

definition visible_variants :: "TimeToggleSystem \<Rightarrow> time_config list" where
  "visible_variants this =
     filter (\<lambda>t. case splatEntities this (time_id t) of
                   None \<Rightarrow> False
                 | Some entity \<Rightarrow> entityEnabled this entity = Some True)
            (tt_times this)"

text \<open>The active time state's entity exists and is shown.\<close>

definition active_shown :: "TimeToggleSystem \<Rightarrow> bool" where
  "active_shown this \<longleftrightarrow>
     (case splatEntities this (activeTimeId this) of
        None \<Rightarrow> False
      | Some entity \<Rightarrow> entityEnabled this entity = Some True)"

text \<open>The shipped configuration: two time states, the first one the default.\<close>

definition shipped_times :: toggle_config where
  "shipped_times =
     \<lparr>cfg_times = [\<lparr>time_id = ''primary'', time_label = ''Before'', time_path = ''./splats/primary/''\<rparr>,
                   \<lparr>time_id = ''secondary'', time_label = ''After'', time_path = ''./splats/secondary/''\<rparr>],
      defaultTime = ''primary''\<rparr>"

text \<open>A configuration whose second time state is named \<open>__proto__\<close>.\<close>

definition proto_times :: toggle_config where
  "proto_times =
     \<lparr>cfg_times = [\<lparr>time_id = ''primary'', time_label = ''Before'', time_path = ''./splats/primary/''\<rparr>,
                   \<lparr>time_id = ''__proto__'', time_label = ''After'', time_path = ''./splats/secondary/''\<rparr>],
      defaultTime = ''primary''\<rparr>"

text \<open>
  A session with the shipped configuration: the system is initialised and the primary
  time state has loaded (asset 0, entity 1); then the user asks for the secondary one.
\<close>

definition initialised :: TimeToggleSystem where
  "initialised = run [CallInitialize, AssetReady 0] (TimeToggleSystem_new shipped_times)"

definition switching :: TimeToggleSystem where
  "switching = step (CallSwitchToTime ''secondary'') initialised"

text \<open>The same session, with a direct request by caller 1 to load the secondary time
  state instead.\<close>

definition loading_secondary :: TimeToggleSystem where
  "loading_secondary = step (CallLoadTimeState ''secondary'' 1) initialised"

section \<open>Properties of the wall system\<close>

lemma meet_x:
  fixes x1 :: real
  assumes d: "(x1 - x2) * (y3 - y4) - (y1 - y2) * (x3 - x4) \<noteq> 0"
  shows "x1 + ((x1 - x3) * (y3 - y4) - (y1 - y3) * (x3 - x4))
                / ((x1 - x2) * (y3 - y4) - (y1 - y2) * (x3 - x4)) * (x2 - x1)
       = x3 + (- ((x1 - x2) * (y1 - y3) - (y1 - y2) * (x1 - x3))
                / ((x1 - x2) * (y3 - y4) - (y1 - y2) * (x3 - x4))) * (x4 - x3)"
proof -
  define d where "d = (x1 - x2) * (y3 - y4) - (y1 - y2) * (x3 - x4)"
  have nz: "d \<noteq> 0" using d by (simp add: d_def)
  have poly: "d * x1 + ((x1 - x3) * (y3 - y4) - (y1 - y3) * (x3 - x4)) * (x2 - x1)
     = d * x3 + (- ((x1 - x2) * (y1 - y3) - (y1 - y2) * (x1 - x3))) * (x4 - x3)"
    unfolding d_def by (simp add: algebra_simps)
  have "x1 + ((x1 - x3) * (y3 - y4) - (y1 - y3) * (x3 - x4)) / d * (x2 - x1)
      = (d * x1 + ((x1 - x3) * (y3 - y4) - (y1 - y3) * (x3 - x4)) * (x2 - x1)) / d"
    using nz by (simp add: field_simps)
  also have "\<dots> = (d * x3 + (- ((x1 - x2) * (y1 - y3) - (y1 - y2) * (x1 - x3))) * (x4 - x3)) / d"
    by (simp only: poly)
  also have "\<dots> = x3 + (- ((x1 - x2) * (y1 - y3) - (y1 - y2) * (x1 - x3)) / d) * (x4 - x3)"
    using nz by (simp add: field_simps)
  finally show ?thesis unfolding d_def .
qed

lemma meet_y:
  fixes x1 :: real
  assumes d: "(x1 - x2) * (y3 - y4) - (y1 - y2) * (x3 - x4) \<noteq> 0"
  shows "y1 + ((x1 - x3) * (y3 - y4) - (y1 - y3) * (x3 - x4))
                / ((x1 - x2) * (y3 - y4) - (y1 - y2) * (x3 - x4)) * (y2 - y1)
       = y3 + (- ((x1 - x2) * (y1 - y3) - (y1 - y2) * (x1 - x3))
                / ((x1 - x2) * (y3 - y4) - (y1 - y2) * (x3 - x4))) * (y4 - y3)"
proof -
  define d where "d = (x1 - x2) * (y3 - y4) - (y1 - y2) * (x3 - x4)"
  have nz: "d \<noteq> 0" using d by (simp add: d_def)
  have poly: "d * y1 + ((x1 - x3) * (y3 - y4) - (y1 - y3) * (x3 - x4)) * (y2 - y1)
     = d * y3 + (- ((x1 - x2) * (y1 - y3) - (y1 - y2) * (x1 - x3))) * (y4 - y3)"
    unfolding d_def by (simp add: algebra_simps)
  have "y1 + ((x1 - x3) * (y3 - y4) - (y1 - y3) * (x3 - x4)) / d * (y2 - y1)
      = (d * y1 + ((x1 - x3) * (y3 - y4) - (y1 - y3) * (x3 - x4)) * (y2 - y1)) / d"
    using nz by (simp add: field_simps)
  also have "\<dots> = (d * y3 + (- ((x1 - x2) * (y1 - y3) - (y1 - y2) * (x1 - x3))) * (y4 - y3)) / d"
    by (simp only: poly)
  also have "\<dots> = y3 + (- ((x1 - x2) * (y1 - y3) - (y1 - y2) * (x1 - x3)) / d) * (y4 - y3)"
    using nz by (simp add: field_simps)
  finally show ?thesis unfolding d_def .
qed

text \<open>The parametric positions are those of the point where the carrier lines meet.\<close>

lemma spec_params_meet:
  assumes "spec_denominator x1 y1 x2 y2 x3 y3 x4 y4 \<noteq> 0"
  shows "x1 + spec_param_t x1 y1 x2 y2 x3 y3 x4 y4 * (x2 - x1)
           = x3 + spec_param_u x1 y1 x2 y2 x3 y3 x4 y4 * (x4 - x3)
       \<and> y1 + spec_param_t x1 y1 x2 y2 x3 y3 x4 y4 * (y2 - y1)
           = y3 + spec_param_u x1 y1 x2 y2 x3 y3 x4 y4 * (y4 - y3)"
  using assms unfolding spec_param_t_def spec_param_u_def spec_denominator_def
  by (intro conjI meet_x meet_y)

text \<open>
  Claim C5. The segment test answers false whenever the denominator is smaller than
  \<open>0.0001\<close> in absolute value, and otherwise answers whether both parametric positions
  lie in \<open>[0, 1]\<close>. Collinear overlapping segments are therefore reported as not
  intersecting; \<open>(0,0)-(10,0)\<close> and \<open>(5,-5)-(5,5)\<close> intersect; \<open>(0,0)-(10,0)\<close> and
  \<open>(5,1)-(5,5)\<close> do not.
\<close>

theorem lineSegmentsIntersect_contract:
  "lineSegmentsIntersect x1 y1 x2 y2 x3 y3 x4 y4 =
     (if \<bar>spec_denominator x1 y1 x2 y2 x3 y3 x4 y4\<bar> < 0.0001 then False
      else 0 \<le> spec_param_t x1 y1 x2 y2 x3 y3 x4 y4 \<and> spec_param_t x1 y1 x2 y2 x3 y3 x4 y4 \<le> 1
         \<and> 0 \<le> spec_param_u x1 y1 x2 y2 x3 y3 x4 y4 \<and> spec_param_u x1 y1 x2 y2 x3 y3 x4 y4 \<le> 1)
   \<and> \<not> lineSegmentsIntersect 0 0 10 0 5 0 15 0
   \<and> lineSegmentsIntersect 0 0 10 0 5 (- 5) 5 5
   \<and> \<not> lineSegmentsIntersect 0 0 10 0 5 1 5 5"
proof -
  have general: "lineSegmentsIntersect x1 y1 x2 y2 x3 y3 x4 y4 =
     (if \<bar>spec_denominator x1 y1 x2 y2 x3 y3 x4 y4\<bar> < 0.0001 then False
      else 0 \<le> spec_param_t x1 y1 x2 y2 x3 y3 x4 y4 \<and> spec_param_t x1 y1 x2 y2 x3 y3 x4 y4 \<le> 1
         \<and> 0 \<le> spec_param_u x1 y1 x2 y2 x3 y3 x4 y4 \<and> spec_param_u x1 y1 x2 y2 x3 y3 x4 y4 \<le> 1)"
    unfolding lineSegmentsIntersect_def spec_denominator_def spec_param_t_def spec_param_u_def
      Let_def
    by (rule refl)
  have collinear: "\<not> lineSegmentsIntersect 0 0 10 0 5 0 15 0"
    by (simp add: lineSegmentsIntersect_def)
  have crossing: "lineSegmentsIntersect 0 0 10 0 5 (- 5) 5 5"
    by (simp add: lineSegmentsIntersect_def)
  have apart: "\<not> lineSegmentsIntersect 0 0 10 0 5 1 5 5"
    by (simp add: lineSegmentsIntersect_def)
  from general collinear crossing apart show ?thesis by blast
qed

section \<open>Properties of the mesh collision system\<close>

lemma vec_length_zero_iff: "vec_length (vec_sub b a) = 0 \<longleftrightarrow> a = b"
proof
  assume "vec_length (vec_sub b a) = 0"
  then have "(vec_x b - vec_x a) * (vec_x b - vec_x a) + (vec_y b - vec_y a) * (vec_y b - vec_y a)
      + (vec_z b - vec_z a) * (vec_z b - vec_z a) = 0"
    by (simp add: vec_length_def vec_sub_def)
  then have "vec_x b - vec_x a = 0 \<and> vec_y b - vec_y a = 0 \<and> vec_z b - vec_z a = 0"
    by (smt (verit) mult_eq_0_iff zero_le_square)
  then show "a = b" by simp
next
  assume "a = b"
  then show "vec_length (vec_sub b a) = 0" by (simp add: vec_length_def vec_sub_def)
qed

text \<open>
  Claim C3. \<open>checkCollision\<close> blocks the movement exactly when collision is enabled,
  the mesh is loaded, physics is confirmed ready, the two positions differ, the raycast
  from the old to the new position returns without error a result that carries an
  entity, and the hit point is closer to the old position than the clearance radius; the
  constructor sets that radius to \<open>0.3\<close>. In every other case the answer is false.
\<close>

theorem checkCollision_contract:
  "fst (checkCollision raycast this currentPos newPos) =
     (collisionEnabled this \<and> collisionMesh this \<noteq> None \<and> physicsReady this
      \<and> currentPos \<noteq> newPos
      \<and> (\<exists>result. raycast currentPos newPos = Inr (Some result) \<and> rr_entity result \<noteq> None
            \<and> vec_distance (rr_point result) currentPos < collisionRadius this))
   \<and> collisionRadius CollisionSystem_new = 0.3"
proof -
  have len: "vec_length (vec_sub newPos currentPos) = 0 \<longleftrightarrow> currentPos = newPos"
    by (rule vec_length_zero_iff)
  have "fst (checkCollision raycast this currentPos newPos) =
     (collisionEnabled this \<and> collisionMesh this \<noteq> None \<and> physicsReady this
      \<and> currentPos \<noteq> newPos
      \<and> (\<exists>result. raycast currentPos newPos = Inr (Some result) \<and> rr_entity result \<noteq> None
            \<and> vec_distance (rr_point result) currentPos < collisionRadius this))"
    unfolding checkCollision_def Let_def
    by (cases "raycast currentPos newPos") (auto simp: len split: option.splits)
  moreover have "collisionRadius CollisionSystem_new = 0.3"
    by (simp add: CollisionSystem_new_def)
  ultimately show ?thesis by blast
qed

theorem checkCollision_contract_witness:
  "fst (checkCollision (\<lambda>a b. Inr (Some \<lparr>rr_entity = Some 7, rr_point = origin\<rparr>))
         (CollisionSystem_new\<lparr>collisionMesh := Some 1, collisionEnabled := True, physicsReady := True\<rparr>)
         origin step_ahead)
   \<and> \<not> fst (checkCollision (\<lambda>a b. Inr (Some \<lparr>rr_entity = Some 7, rr_point = step_ahead\<rparr>))
         (CollisionSystem_new\<lparr>collisionMesh := Some 1, collisionEnabled := True, physicsReady := False\<rparr>)
         origin step_ahead)"
  using checkCollision_contract [of
      "\<lambda>a b. Inr (Some \<lparr>rr_entity = Some 7, rr_point = origin\<rparr>)"
      "CollisionSystem_new\<lparr>collisionMesh := Some 1, collisionEnabled := True, physicsReady := True\<rparr>"
      origin step_ahead]
    checkCollision_contract [of
      "\<lambda>a b. Inr (Some \<lparr>rr_entity = Some 7, rr_point = step_ahead\<rparr>)"
      "CollisionSystem_new\<lparr>collisionMesh := Some 1, collisionEnabled := True, physicsReady := False\<rparr>"
      origin step_ahead]
  by (simp add: CollisionSystem_new_def origin_def step_ahead_def vec_distance_def vec_length_def
      vec_sub_def)

section \<open>Properties of the physics-readiness handshake\<close>

















section \<open>Properties of the navigation loop\<close>

lemma candidate_scene: "candidate shipped_config (scene False w p) (1 / 60) = step_ahead"
  by (simp add: candidate_def scene_def shipped_config_def moveSpeedDt_def flatten_def
      normalize_def mulScalar_def vec_add_def step_ahead_def origin_def Let_def)

lemma candidate_scene_fly: "candidate shipped_config (scene True w p) (1 / 60) = step_ahead"
  by (simp add: candidate_def scene_def shipped_config_def moveSpeedDt_def flatten_def
      mulScalar_def vec_add_def step_ahead_def origin_def Let_def)

lemma wall_crossed: "checkWallCollision (WALL_SEGMENTS (scene f w p)) origin step_ahead"
  by (simp add: scene_def origin_def step_ahead_def lineSegmentsIntersect_def)

lemma scene_fields:
  "cameraPosition (scene f w p) = origin" "flyMode (scene f w p) = f"
  "wallCollisionEnabled (scene f w p) = w" "portalSystem (scene f w p) = p"
  "consulted (scene f w p) = []" "collisionSystem (scene f w p) = CollisionSystem_new"
  by (simp_all add: scene_def)

lemma mesh_disabled: "checkCollision raycast CollisionSystem_new a b = (False, CollisionSystem_new)"
  by (simp add: checkCollision_def CollisionSystem_new_def)

text \<open>
  Claim C4, as the source has it. In walk mode the mesh check is always evaluated first;
  the wall check is evaluated next only while \<open>wallCollisionEnabled\<close> is set, and the
  portal check last only when a portal system exists; evaluation stops at the first
  check that rejects. If an evaluated check rejects, the camera stays exactly at its old
  position; otherwise it moves to the candidate position. In fly mode no check is
  evaluated and the camera moves to the candidate position.
\<close>

theorem update_arbitration:
  "cameraPosition (update cfg raycast pm dt s) =
     (if flyMode s then candidate cfg s dt
      else if fst (checkCollision raycast (collisionSystem s) (cameraPosition s) (candidate cfg s dt))
           \<or> (wallCollisionEnabled s
               \<and> checkWallCollision (WALL_SEGMENTS s) (cameraPosition s) (candidate cfg s dt))
           \<or> (case portalSystem s of None \<Rightarrow> False
                | Some p \<Rightarrow> fst (checkMovementBlocked pm p (cameraPosition s) (candidate cfg s dt)))
      then cameraPosition s else candidate cfg s dt)
   \<and> consulted (update cfg raycast pm dt s) = consulted s @
     (if flyMode s then []
      else Mesh #
        (if fst (checkCollision raycast (collisionSystem s) (cameraPosition s) (candidate cfg s dt))
         then []
         else (if wallCollisionEnabled s then [Wall] else []) @
           (if wallCollisionEnabled s
               \<and> checkWallCollision (WALL_SEGMENTS s) (cameraPosition s) (candidate cfg s dt)
            then [] else (if portalSystem s = None then [] else [Portal]))))"
  unfolding update_def commit_def reject_def Let_def
  by (auto split: prod.splits option.splits)

theorem update_arbitration_witness:
  "cameraPosition (update shipped_config no_hit (recording_portal False) (1 / 60)
       (scene False True (Some []))) = origin
   \<and> consulted (update shipped_config no_hit (recording_portal False) (1 / 60)
       (scene False True (Some []))) = [Mesh, Wall]"
  using update_arbitration [of shipped_config no_hit "recording_portal False" "1 / 60"
      "scene False True (Some [])"]
  by (simp add: candidate_scene scene_fields wall_crossed mesh_disabled)

text \<open>In walk mode with the wall toggle off, a movement that crosses a wall is committed:
  the wall check is not evaluated although the mesh check accepted.\<close>

theorem update_wall_toggle_counterexample:
  "\<not> flyMode (scene False False None)
   \<and> checkWallCollision (WALL_SEGMENTS (scene False False None))
        (cameraPosition (scene False False None))
        (candidate shipped_config (scene False False None) (1 / 60))
   \<and> cameraPosition (update shipped_config no_hit (recording_portal False) (1 / 60)
        (scene False False None)) = step_ahead
   \<and> step_ahead \<noteq> cameraPosition (scene False False None)
   \<and> consulted (update shipped_config no_hit (recording_portal False) (1 / 60)
        (scene False False None)) = [Mesh]"
proof -
  have "cameraPosition (update shipped_config no_hit (recording_portal False) (1 / 60)
        (scene False False None)) = step_ahead"
    unfolding update_def Let_def candidate_scene
    by (simp add: scene_fields mesh_disabled commit_def)
  moreover have "consulted (update shipped_config no_hit (recording_portal False) (1 / 60)
        (scene False False None)) = [Mesh]"
    unfolding update_def Let_def candidate_scene
    by (simp add: scene_fields mesh_disabled commit_def)
  moreover have "step_ahead \<noteq> origin" by (simp add: step_ahead_def origin_def)
  ultimately show ?thesis
    by (simp add: candidate_scene scene_fields wall_crossed)
qed

text \<open>
  Claim C7, evaluated. In walk mode with a portal system present, a frame whose movement
  the wall check rejects returns before the portal system is updated: it has received no
  call. The same frame with the wall toggle off is accepted, and the portal system
  receives \<open>update\<close> and then \<open>checkCollision\<close> with the committed position.
\<close>

theorem update_rejected_frame_skips_portal:
  "portalSystem (update shipped_config no_hit (recording_portal False) (1 / 60)
       (scene False True (Some []))) = Some []
   \<and> cameraPosition (update shipped_config no_hit (recording_portal False) (1 / 60)
       (scene False True (Some []))) = origin
   \<and> portalSystem (update shipped_config no_hit (recording_portal False) (1 / 60)
       (scene False False (Some []))) = Some [Called_update (1 / 60), Called_checkCollision step_ahead]"
proof -
  have "portalSystem (update shipped_config no_hit (recording_portal False) (1 / 60)
       (scene False True (Some []))) = Some []"
    unfolding update_def Let_def candidate_scene
    by (simp add: scene_fields mesh_disabled wall_crossed reject_def)
  moreover have "cameraPosition (update shipped_config no_hit (recording_portal False) (1 / 60)
       (scene False True (Some []))) = origin"
    unfolding update_def Let_def candidate_scene
    by (simp add: scene_fields mesh_disabled wall_crossed reject_def)
  moreover have "portalSystem (update shipped_config no_hit (recording_portal False) (1 / 60)
       (scene False False (Some []))) = Some [Called_update (1 / 60), Called_checkCollision step_ahead]"
    unfolding update_def Let_def candidate_scene
    by (simp add: scene_fields mesh_disabled commit_def recording_portal_def)
  ultimately show ?thesis by blast
qed

section \<open>Properties of the time toggle system\<close>

subsection \<open>The lock invariant\<close>

lemma find_SomeD: "find P xs = Some x \<Longrightarrow> x \<in> set xs \<and> P x"
  by (induction xs) (auto split: if_splits)

lemma filter_filter_le: "length (filter Q (filter R xs)) \<le> length (filter Q xs)"
  by (induction xs) auto

lemma filter_remove_less:
  "x \<in> set xs \<Longrightarrow> Q x \<Longrightarrow> \<not> R x \<Longrightarrow> length (filter Q (filter R xs)) < length (filter Q xs)"
proof (induction xs)
  case Nil
  then show ?case by simp
next
  case (Cons y ys)
  show ?case
  proof (cases "x = y")
    case True
    with Cons.prems filter_filter_le [of Q R ys] show ?thesis by simp
  next
    case False
    with Cons show ?thesis by auto
  qed
qed

lemma filter_drop_nth:
  "i < length xs \<Longrightarrow>
   length (filter Q (take i xs @ drop (Suc i) xs)) + (if Q (xs ! i) then 1 else 0) = length (filter Q xs)"
proof -
  assume "i < length xs"
  then have "xs = take i xs @ xs ! i # drop (Suc i) xs" by (rule id_take_nth_drop)
  then have "filter Q xs = filter Q (take i xs) @ filter Q [xs ! i] @ filter Q (drop (Suc i) xs)"
    by (metis append_Cons append_Nil filter_append)
  then show ?thesis by simp
qed

lemma log_fields [simp]:
  "tt_times (log m s) = tt_times s" "activeTimeId (log m s) = activeTimeId s"
  "splatEntities (log m s) = splatEntities s" "splatAssets (log m s) = splatAssets s"
  "loadingStates (log m s) = loadingStates s" "switchLock (log m s) = switchLock s"
  "entityEnabled (log m s) = entityEnabled s" "nextHandle (log m s) = nextHandle s"
  "loader (log m s) = loader s" "pollers (log m s) = pollers s"
  "frameCallbacks (log m s) = frameCallbacks s" "cooldownTimers (log m s) = cooldownTimers s"
  "loadRequests (log m s) = loadRequests s" "settled (log m s) = settled s"
  "transitions (log m s) = transitions s" "logged (log m s) = logged s @ [m]"
  by (simp_all add: log_def)

lemma holders_log [simp]: "holders (log m s) = holders s"
  by (simp add: holders_def switches_in_flight_def)

lemma lock_inv_log [simp]: "lock_inv (log m s) = lock_inv s"
  by (simp add: lock_inv_def)

lemma lock_inv_switch_continue:
  "holders s = 0 \<Longrightarrow> switchLock s \<Longrightarrow> lock_inv (switch_continue tid s)"
  by (auto simp: switch_continue_def lock_inv_def holders_def switches_in_flight_def log_def
      split: option.splits)

lemma lock_inv_settle: "ready_for w s \<Longrightarrow> lock_inv (settle w out s)"
  by (cases w; cases out)
     (auto simp: ready_for_def settle_def lock_inv_switch_continue,
      auto simp: lock_inv_def holders_def switches_in_flight_def)

lemma ready_for_log [simp]: "ready_for w (log m s) = ready_for w s"
  by (simp add: ready_for_def)

lemma lock_inv_loadTimeState: "ready_for w s \<Longrightarrow> lock_inv (loadTimeState tid w s)"
  unfolding loadTimeState_def
  by (auto split: option.splits simp: lock_inv_settle Let_def)
     (auto simp: ready_for_def lock_inv_def holders_def switches_in_flight_def log_def split: if_splits)

lemma lock_inv_switchToTime: "lock_inv s \<Longrightarrow> lock_inv (switchToTime tid s)"
proof -
  assume inv: "lock_inv s"
  show ?thesis
  proof (cases "tid = activeTimeId s \<or> switchLock s")
    case True
    with inv show ?thesis
      by (auto simp: switchToTime_def log_def lock_inv_def holders_def switches_in_flight_def)
  next
    case False
    with inv have h: "holders s = 0" by (auto simp: lock_inv_def)
    let ?s2 = "log (''Switching from '' @ activeTimeId s @ '' to '' @ tid) (s\<lparr>switchLock := True\<rparr>)"
    have r: "ready_for (AwaitSwitch tid) ?s2"
      using h by (simp add: ready_for_def holders_def switches_in_flight_def)
    have h2: "holders ?s2 = 0" "switchLock ?s2"
      using h by (simp_all add: holders_def switches_in_flight_def)
    from False show ?thesis
      using lock_inv_loadTimeState [OF r] lock_inv_switch_continue [OF h2]
      by (simp add: switchToTime_def Let_def)
  qed
qed

lemma lock_inv_assetReady: "lock_inv s \<Longrightarrow> lock_inv (assetReady a s)"
proof (cases "find (\<lambda>l. fst l = a) (loader s)")
  case None
  assume "lock_inv s"
  with None show ?thesis by (simp add: assetReady_def)
next
  case (Some l)
  assume inv: "lock_inv s"
  obtain a' tid w where l: "l = (a', tid, w)" by (cases l) auto
  from find_SomeD [OF Some] l have mem: "(a', tid, w) \<in> set (loader s)" and a': "a' = a" by auto
  let ?s1 = "s\<lparr>nextHandle := nextHandle s + 1,
                loader := filter (\<lambda>l. fst l \<noteq> a) (loader s),
                entityEnabled := (entityEnabled s)(nextHandle s \<mapsto> (tid = activeTimeId s)),
                splatEntities := (splatEntities s)(tid \<mapsto> nextHandle s),
                loadingStates := js_set (loadingStates s) tid Loaded\<rparr>"
  have le: "holders ?s1 \<le> holders s"
    using filter_filter_le [of "\<lambda>l. is_switch (snd (snd l))" "\<lambda>l. fst l \<noteq> a" "loader s"]
    by (simp add: holders_def switches_in_flight_def)
  have "ready_for w ?s1"
  proof (cases "is_switch w")
    case True
    have "length (filter (\<lambda>l. is_switch (snd (snd l))) (filter (\<lambda>l. fst l \<noteq> a) (loader s)))
          < length (filter (\<lambda>l. is_switch (snd (snd l))) (loader s))"
      using filter_remove_less [OF mem, of "\<lambda>l. is_switch (snd (snd l))" "\<lambda>l. fst l \<noteq> a"] True a'
      by simp
    then have "holders ?s1 < holders s" by (simp add: holders_def switches_in_flight_def)
    with inv have "holders ?s1 = 0 \<and> switchLock s" by (auto simp: lock_inv_def)
    with True show ?thesis by (simp add: ready_for_def)
  next
    case False
    with inv le show ?thesis by (auto simp: ready_for_def lock_inv_def)
  qed
  then have "lock_inv (settle w (Resolved (Some (Entity (nextHandle s)))) (log (''Time state loaded: '' @ tid) ?s1))"
    by (intro lock_inv_settle) simp
  with Some l show ?thesis by (simp add: assetReady_def Let_def)
qed

lemma lock_inv_assetError: "lock_inv s \<Longrightarrow> lock_inv (assetError a err s)"
proof (cases "find (\<lambda>l. fst l = a) (loader s)")
  case None
  assume "lock_inv s"
  with None show ?thesis by (simp add: assetError_def)
next
  case (Some l)
  assume inv: "lock_inv s"
  obtain a' tid w where l: "l = (a', tid, w)" by (cases l) auto
  let ?s1 = "s\<lparr>loader := filter (\<lambda>l. fst l \<noteq> a) (loader s)\<rparr>"
  have le: "holders ?s1 \<le> holders s"
    using filter_filter_le [of "\<lambda>l. is_switch (snd (snd l))" "\<lambda>l. fst l \<noteq> a" "loader s"]
    by (simp add: holders_def switches_in_flight_def)
  with inv have "lock_inv ?s1" by (auto simp: lock_inv_def)
  then have "lock_inv ((log (''Error loading time state '' @ tid @ '': '' @ err) ?s1)
                 \<lparr>loadingStates := js_set (loadingStates ?s1) tid LoadError\<rparr>)"
    by (simp add: lock_inv_def holders_def switches_in_flight_def)
  then have "lock_inv (settle w (Rejected err) ((log (''Error loading time state '' @ tid @ '': '' @ err) ?s1)
                 \<lparr>loadingStates := js_set (loadingStates ?s1) tid LoadError\<rparr>))"
    by (cases w) (auto simp: settle_def lock_inv_def holders_def switches_in_flight_def)
  with Some l show ?thesis by (simp add: assetError_def Let_def)
qed

lemma lock_inv_pollTick: "lock_inv s \<Longrightarrow> lock_inv (pollTick i s)"
proof (cases "i < length (pollers s) \<and> loadingStates s (fst (pollers s ! i)) = Some Loaded")
  case False
  assume "lock_inv s"
  with False show ?thesis by (auto simp: pollTick_def split: prod.splits)
next
  case True
  assume inv: "lock_inv s"
  obtain tid w where p: "pollers s ! i = (tid, w)" by (cases "pollers s ! i") auto
  let ?s1 = "s\<lparr>pollers := take i (pollers s) @ drop (Suc i) (pollers s)\<rparr>"
  from True have i: "i < length (pollers s)" by simp
  have eq: "holders ?s1 + (if is_switch w then 1 else 0) = holders s"
    using filter_drop_nth [OF i, of "\<lambda>p. is_switch (snd p)"] p
    by (simp add: holders_def switches_in_flight_def)
  have "ready_for w ?s1"
    using inv eq by (auto simp: ready_for_def lock_inv_def split: if_splits)
  then have "lock_inv (settle w (Resolved (js_get (splatEntities s) tid)) ?s1)" by (rule lock_inv_settle)
  with True p show ?thesis by (simp add: pollTick_def)
qed

lemma lock_inv_animationFrame: "lock_inv s \<Longrightarrow> lock_inv (animationFrame s)"
proof -
  assume inv: "lock_inv s"
  then have "length (frameCallbacks s) \<le> 1"
    by (simp add: lock_inv_def holders_def switches_in_flight_def)
  then consider "frameCallbacks s = []" | cb where "frameCallbacks s = [cb]"
    by (cases "frameCallbacks s") (auto simp: Suc_le_eq)
  then show ?thesis
  proof cases
    case 1
    with inv show ?thesis
      by (simp add: animationFrame_def lock_inv_def holders_def switches_in_flight_def)
  next
    case 2
    with inv show ?thesis
      by (cases cb)
         (auto simp: animationFrame_def lock_inv_def holders_def switches_in_flight_def
            switch_finish_def Let_def)
  qed
qed

lemma lock_inv_cooldownTimeout: "lock_inv s \<Longrightarrow> lock_inv (cooldownTimeout s)"
proof -
  assume inv: "lock_inv s"
  have same: "switches_in_flight (s\<lparr>cooldownTimers := cooldownTimers s - 1, switchLock := False\<rparr>)
        = switches_in_flight s"
    by (simp add: switches_in_flight_def)
  show ?thesis
  proof (cases "cooldownTimers s > 0")
    case True
    with inv have "switches_in_flight s = 0 \<and> cooldownTimers s = 1"
      by (simp add: lock_inv_def holders_def)
    with True same show ?thesis
      by (simp add: cooldownTimeout_def lock_inv_def holders_def)
  next
    case False
    with inv show ?thesis by (simp add: cooldownTimeout_def)
  qed
qed

lemma lock_inv_step: "lock_inv s \<Longrightarrow> lock_inv (step e s)"
proof (cases e)
  case CallInitialize
  assume "lock_inv s"
  then show ?thesis using CallInitialize
    by (simp add: initialize_def lock_inv_loadTimeState ready_for_def)
next
  case (CallLoadTimeState tid c)
  assume "lock_inv s"
  then show ?thesis using CallLoadTimeState
    by (simp add: lock_inv_loadTimeState ready_for_def)
next
  case CallToggle
  assume "lock_inv s"
  then show ?thesis using CallToggle
    by (simp add: toggle_def lock_inv_switchToTime split: option.splits)
next
  case (CallHandleKeyboard k)
  assume "lock_inv s"
  then show ?thesis using CallHandleKeyboard
    by (simp add: handleKeyboard_def lock_inv_switchToTime Let_def)
qed (simp_all add: lock_inv_switchToTime lock_inv_assetReady lock_inv_assetError
      lock_inv_pollTick lock_inv_animationFrame lock_inv_cooldownTimeout)

lemma lock_inv_new: "lock_inv (TimeToggleSystem_new cfg)"
  by (simp add: lock_inv_def holders_def switches_in_flight_def TimeToggleSystem_new_def)

lemma lock_inv_run: "lock_inv s \<Longrightarrow> lock_inv (run es s)"
  by (induction es arbitrary: s) (simp_all add: lock_inv_step)


subsection \<open>A session\<close>

lemmas tt_defs = TimeToggleSystem_new_def shipped_times_def initialize_def loadTimeState_def
  Let_def assetReady_def assetError_def settle_def switchToTime_def switch_continue_def
  animationFrame_def switch_finish_def cooldownTimeout_def pollTick_def log_def js_set_def
  js_get_def object_prototype_keys_def

lemma initialised_eq:
  "initialised = \<lparr>tt_times = cfg_times shipped_times, activeTimeId = ''primary'',
      splatEntities = [''primary'' \<mapsto> 1], splatAssets = [''primary'' \<mapsto> 0],
      loadingStates = [''primary'' \<mapsto> Loaded],
      switchLock = False, entityEnabled = [1 \<mapsto> True], nextHandle = 2,
      loader = [], pollers = [], frameCallbacks = [], cooldownTimers = 0,
      loadRequests = [(0, ''primary'')], settled = [(AwaitInitialize, Resolved (Some (Entity 1)))],
      transitions = [],
      logged = [''Loading time state: primary'', ''Time state loaded: primary'']\<rparr>"
  by (simp add: initialised_def tt_defs)

lemma switching_eq:
  "switching = initialised\<lparr>switchLock := True, loadingStates := [''primary'' \<mapsto> Loaded, ''secondary'' \<mapsto> Loading],
      nextHandle := 3, splatAssets := [''primary'' \<mapsto> 0, ''secondary'' \<mapsto> 2],
      loader := [(2, ''secondary'', AwaitSwitch ''secondary'')],
      loadRequests := [(0, ''primary''), (2, ''secondary'')],
      logged := [''Loading time state: primary'', ''Time state loaded: primary'',
         ''Switching from primary to secondary'', ''Loading time state: secondary'']\<rparr>"
  by (simp add: switching_def initialised_eq tt_defs)

lemma scenario:
  "transitions (run [CallSwitchToTime ''secondary'', AssetReady 2, AnimationFrame, AnimationFrame,
              CallSwitchToTime ''secondary'', CooldownTimeout] switching) = [(''secondary'', ''primary'')]
   \<and> loadRequests (run [CallSwitchToTime ''secondary'', AssetReady 2, AnimationFrame, AnimationFrame,
              CallSwitchToTime ''secondary'', CooldownTimeout] switching) = [(0, ''primary''), (2, ''secondary'')]
   \<and> activeTimeId (run [CallSwitchToTime ''secondary'', AssetReady 2, AnimationFrame, AnimationFrame,
              CallSwitchToTime ''secondary'', CooldownTimeout] switching) = ''secondary''"
  by (simp add: switching_eq initialised_eq tt_defs)

lemma switch_dropped:
  "switchLock this \<Longrightarrow> switchToTime timeId this =
     (if timeId = activeTimeId this then this
      else log ''Switch locked, ignoring rapid switch request'' this)"
  by (simp add: switchToTime_def)

lemma in_flight_le: "switches_in_flight (run es (TimeToggleSystem_new config)) \<le> 1"
  using lock_inv_run [OF lock_inv_new, of es config]
  by (simp add: lock_inv_def holders_def)

subsection \<open>A lock that nobody releases\<close>

lemma settle_initialize:
  "settle AwaitInitialize out s =
     s\<lparr>settled := settled s @ [(AwaitInitialize,
        case out of Resolved v \<Rightarrow> Resolved (js_get (splatEntities s) (activeTimeId s))
                  | Rejected err \<Rightarrow> Rejected err)]\<rparr>"
  by (cases out) (simp_all add: settle_def)

lemma settle_caller:
  "settle (AwaitCaller c) out s = s\<lparr>settled := settled s @ [(AwaitCaller c, out)]\<rparr>"
  by (simp add: settle_def)

lemma settle_rejected:
  "settle w (Rejected err) s = s\<lparr>settled := settled s @ [(w, Rejected err)]\<rparr>"
  by (cases w) (simp_all add: settle_def)

lemma stuck_settled [simp]: "stuck (s\<lparr>settled := x\<rparr>) = stuck s"
  by (simp add: stuck_def holders_def switches_in_flight_def)

lemma stuck_log [simp]: "stuck (log m s) = stuck s"
  by (simp add: stuck_def)

lemma same_settle:
  "\<not> is_switch w \<Longrightarrow> same_switch_state s1 s \<Longrightarrow> same_switch_state (settle w out s1) s"
  by (cases w) (simp_all add: settle_initialize settle_caller same_switch_state_def)

lemma stuck_no_switch_loader:
  "stuck s \<Longrightarrow> l \<in> set (loader s) \<Longrightarrow> \<not> is_switch (snd (snd l))"
proof -
  assume "stuck s" and mem: "l \<in> set (loader s)"
  then have "filter (\<lambda>l. is_switch (snd (snd l))) (loader s) = []"
    by (simp add: stuck_def holders_def switches_in_flight_def)
  with mem show ?thesis by (simp add: filter_empty_conv)
qed

lemma stuck_no_switch_poller:
  "stuck s \<Longrightarrow> p \<in> set (pollers s) \<Longrightarrow> \<not> is_switch (snd p)"
proof -
  assume "stuck s" and mem: "p \<in> set (pollers s)"
  then have "filter (\<lambda>p. is_switch (snd p)) (pollers s) = []"
    by (simp add: stuck_def holders_def switches_in_flight_def)
  with mem show ?thesis by (simp add: filter_empty_conv)
qed


lemma same_loadTimeState:
  assumes "\<not> is_switch w" "stuck s"
  shows "same_switch_state (loadTimeState tid w s) s"
proof -
  have base: "same_switch_state (log m s) s" for m
    using assms by (simp add: same_switch_state_def)
  have poll: "same_switch_state ((log m s)\<lparr>pollers := pollers s @ [(tid, w)]\<rparr>) s" for m
    using assms by (simp add: same_switch_state_def stuck_def holders_def switches_in_flight_def)
  have load: "same_switch_state
      ((log m (s\<lparr>loadingStates := ls\<rparr>))\<lparr>nextHandle := n, splatAssets := sa,
          loader := loader s @ [(a, tid, w)], loadRequests := lr\<rparr>) s" for m ls n sa a lr
    using assms by (simp add: same_switch_state_def stuck_def holders_def switches_in_flight_def)
  show ?thesis
    unfolding loadTimeState_def Let_def
    using same_settle [OF assms(1) base] poll load
    by (simp split: option.splits)
qed

lemma same_switchToTime: "stuck s \<Longrightarrow> same_switch_state (switchToTime tid s) s"
  by (simp add: switchToTime_def same_switch_state_def stuck_def)

lemma same_assetReady: "stuck s \<Longrightarrow> same_switch_state (assetReady a s) s"
proof (cases "find (\<lambda>l. fst l = a) (loader s)")
  case None
  assume "stuck s"
  with None show ?thesis by (simp add: assetReady_def same_switch_state_def)
next
  case (Some l)
  assume st: "stuck s"
  obtain a' tid w where l: "l = (a', tid, w)" by (cases l) auto
  from find_SomeD [OF Some] l stuck_no_switch_loader [OF st, of l] have w: "\<not> is_switch w" by auto
  let ?s1 = "s\<lparr>nextHandle := nextHandle s + 1,
                loader := filter (\<lambda>l. fst l \<noteq> a) (loader s),
                entityEnabled := (entityEnabled s)(nextHandle s \<mapsto> (tid = activeTimeId s)),
                splatEntities := (splatEntities s)(tid \<mapsto> nextHandle s),
                loadingStates := js_set (loadingStates s) tid Loaded\<rparr>"
  have "holders ?s1 \<le> holders s"
    using filter_filter_le [of "\<lambda>l. is_switch (snd (snd l))" "\<lambda>l. fst l \<noteq> a" "loader s"]
    by (simp add: holders_def switches_in_flight_def)
  with st have "same_switch_state (log (''Time state loaded: '' @ tid) ?s1) s"
    by (simp add: same_switch_state_def stuck_def)
  from same_settle [OF w this] Some l show ?thesis by (simp add: assetReady_def Let_def)
qed

lemma same_assetError: "stuck s \<Longrightarrow> same_switch_state (assetError a err s) s"
proof (cases "find (\<lambda>l. fst l = a) (loader s)")
  case None
  assume "stuck s"
  with None show ?thesis by (simp add: assetError_def same_switch_state_def)
next
  case (Some l)
  assume st: "stuck s"
  obtain a' tid w where l: "l = (a', tid, w)" by (cases l) auto
  from find_SomeD [OF Some] l stuck_no_switch_loader [OF st, of l] have w: "\<not> is_switch w" by auto
  let ?s1 = "s\<lparr>loader := filter (\<lambda>l. fst l \<noteq> a) (loader s)\<rparr>"
  have "holders ?s1 \<le> holders s"
    using filter_filter_le [of "\<lambda>l. is_switch (snd (snd l))" "\<lambda>l. fst l \<noteq> a" "loader s"]
    by (simp add: holders_def switches_in_flight_def)
  with st have "same_switch_state ((log (''Error loading time state '' @ tid @ '': '' @ err) ?s1)
                 \<lparr>loadingStates := js_set (loadingStates ?s1) tid LoadError\<rparr>) s"
    by (simp add: same_switch_state_def stuck_def holders_def switches_in_flight_def)
  from same_settle [OF w this] Some l show ?thesis by (simp add: assetError_def Let_def)
qed

lemma same_pollTick: "stuck s \<Longrightarrow> same_switch_state (pollTick i s) s"
proof (cases "i < length (pollers s) \<and> loadingStates s (fst (pollers s ! i)) = Some Loaded")
  case False
  assume "stuck s"
  with False show ?thesis by (auto simp: pollTick_def same_switch_state_def split: prod.splits)
next
  case True
  assume st: "stuck s"
  obtain tid w where p: "pollers s ! i = (tid, w)" by (cases "pollers s ! i") auto
  from True have i: "i < length (pollers s)" by simp
  then have "pollers s ! i \<in> set (pollers s)" by simp
  from stuck_no_switch_poller [OF st this] p have w: "\<not> is_switch w" by simp
  let ?s1 = "s\<lparr>pollers := take i (pollers s) @ drop (Suc i) (pollers s)\<rparr>"
  have "holders ?s1 + (if is_switch w then 1 else 0) = holders s"
    using filter_drop_nth [OF i, of "\<lambda>p. is_switch (snd p)"] p
    by (simp add: holders_def switches_in_flight_def)
  with st w have "same_switch_state ?s1 s" by (simp add: same_switch_state_def stuck_def)
  from same_settle [OF w this] True p show ?thesis by (simp add: pollTick_def)
qed

lemma same_animationFrame: "stuck s \<Longrightarrow> same_switch_state (animationFrame s) s"
  by (simp add: animationFrame_def same_switch_state_def stuck_def holders_def switches_in_flight_def)

lemma same_cooldownTimeout: "stuck s \<Longrightarrow> same_switch_state (cooldownTimeout s) s"
  by (simp add: cooldownTimeout_def same_switch_state_def stuck_def holders_def)

lemma same_step: "stuck s \<Longrightarrow> same_switch_state (step e s) s"
proof (cases e)
  case CallInitialize
  assume "stuck s"
  then show ?thesis using CallInitialize by (simp add: initialize_def same_loadTimeState)
next
  case CallToggle
  assume "stuck s"
  then show ?thesis using CallToggle
    by (auto simp: toggle_def same_switchToTime split: option.splits)
       (simp_all add: same_switch_state_def)
next
  case (CallHandleKeyboard k)
  assume "stuck s"
  then show ?thesis using CallHandleKeyboard
    by (auto simp: handleKeyboard_def same_switchToTime Let_def)
       (simp_all add: same_switch_state_def)
qed (simp_all add: same_loadTimeState same_switchToTime same_assetReady same_assetError
       same_pollTick same_animationFrame same_cooldownTimeout)

lemma same_run: "stuck s \<Longrightarrow> same_switch_state (run es s) s"
proof (induction es arbitrary: s)
  case Nil
  then show ?case by (simp add: same_switch_state_def)
next
  case (Cons e es)
  from same_step [OF Cons.prems, of e] have st: "stuck (step e s)"
    and eq: "activeTimeId (step e s) = activeTimeId s" "transitions (step e s) = transitions s"
    by (simp_all add: same_switch_state_def)
  from Cons.IH [OF st] eq show ?case by (simp add: same_switch_state_def)
qed

lemma failed_switch_stuck:
  assumes inv: "lock_inv s"
    and f: "find (\<lambda>l. fst l = a) (loader s) = Some (a, tid, AwaitSwitch target)"
  shows "stuck (assetError a err s) \<and> activeTimeId (assetError a err s) = activeTimeId s"
proof -
  from find_SomeD [OF f] have mem: "(a, tid, AwaitSwitch target) \<in> set (loader s)" by simp
  have "length (filter (\<lambda>l. is_switch (snd (snd l))) (filter (\<lambda>l. fst l \<noteq> a) (loader s)))
          < length (filter (\<lambda>l. is_switch (snd (snd l))) (loader s))"
    using filter_remove_less [OF mem, of "\<lambda>l. is_switch (snd (snd l))" "\<lambda>l. fst l \<noteq> a"] by simp
  then have "holders (s\<lparr>loader := filter (\<lambda>l. fst l \<noteq> a) (loader s)\<rparr>) < holders s"
    by (simp add: holders_def switches_in_flight_def)
  with inv have "holders (s\<lparr>loader := filter (\<lambda>l. fst l \<noteq> a) (loader s)\<rparr>) = 0 \<and> switchLock s"
    by (auto simp: lock_inv_def)
  then show ?thesis using f
    by (simp add: assetError_def Let_def settle_def stuck_def holders_def switches_in_flight_def)
qed

lemma switchLock_fold_callbacks: "switchLock (fold run_callback cbs s) = switchLock s"
proof (induction cbs arbitrary: s)
  case Nil
  then show ?case by simp
next
  case (Cons cb cbs)
  then show ?case by (cases cb) (simp_all add: switch_finish_def Let_def)
qed

lemma release_settle:
  "switchLock s \<Longrightarrow> \<not> switchLock (settle w out s) \<Longrightarrow>
     last (logged (settle w out s)) = ''Missing entities for transition''"
  by (cases w; cases out) (auto simp: settle_def switch_continue_def split: option.splits)

lemma release_loadTimeState:
  "switchLock s \<Longrightarrow> \<not> switchLock (loadTimeState tid w s) \<Longrightarrow>
     last (logged (loadTimeState tid w s)) = ''Missing entities for transition''"
  unfolding loadTimeState_def Let_def
  by (auto split: option.splits if_splits intro: release_settle)

lemma release_step:
  "switchLock s \<Longrightarrow> \<not> switchLock (step e s) \<Longrightarrow>
     e = CooldownTimeout \<or> last (logged (step e s)) = ''Missing entities for transition''"
proof (cases e)
  case CallInitialize
  assume "switchLock s" "\<not> switchLock (step e s)"
  then show ?thesis using CallInitialize release_loadTimeState [of s "activeTimeId s" AwaitInitialize]
    by (simp add: initialize_def)
next
  case (CallSwitchToTime tid)
  assume "switchLock s" "\<not> switchLock (step e s)"
  then show ?thesis using CallSwitchToTime by (simp add: switchToTime_def split: if_splits)
next
  case (CallLoadTimeState tid c)
  assume "switchLock s" "\<not> switchLock (step e s)"
  then show ?thesis using CallLoadTimeState release_loadTimeState [of s tid "AwaitCaller c"]
    by simp
next
  case CallToggle
  assume "switchLock s" "\<not> switchLock (step e s)"
  then show ?thesis using CallToggle
    by (simp add: toggle_def switchToTime_def split: option.splits if_splits)
next
  case (CallHandleKeyboard k)
  assume "switchLock s" "\<not> switchLock (step e s)"
  then show ?thesis using CallHandleKeyboard
    by (simp add: handleKeyboard_def switchToTime_def Let_def split: if_splits)
next
  case (AssetReady a)
  assume "switchLock s" "\<not> switchLock (step e s)"
  then show ?thesis using AssetReady
    by (auto simp: assetReady_def Let_def split: option.splits prod.splits intro!: release_settle)
next
  case (AssetError a err)
  assume "switchLock s" "\<not> switchLock (step e s)"
  then show ?thesis using AssetError
    by (auto simp: assetError_def Let_def split: option.splits prod.splits intro!: release_settle)
next
  case (PollTick i)
  assume "switchLock s" "\<not> switchLock (step e s)"
  then show ?thesis using PollTick
    by (auto simp: pollTick_def Let_def split: option.splits prod.splits if_splits intro!: release_settle)
next
  case AnimationFrame
  assume "switchLock s" "\<not> switchLock (step e s)"
  then show ?thesis using AnimationFrame
    by (simp add: animationFrame_def switchLock_fold_callbacks)
next
  case CooldownTimeout
  then show ?thesis by simp
qed


subsection \<open>The switch protocol\<close>

lemma switching_run:
  "run [CallInitialize, AssetReady 0, CallSwitchToTime ''secondary''] (TimeToggleSystem_new shipped_times)
     = switching"
  by (simp add: switching_def initialised_def)

lemma second_call_no_load:
  assumes "\<not> switchLock s" "tid \<noteq> activeTimeId s"
     "find (\<lambda>t. time_id t = tid) (tt_times s) \<noteq> None" "loadingStates s tid = None"
  shows "switchLock (switchToTime tid s)
       \<and> switchToTime tid (switchToTime tid s)
           = log ''Switch locked, ignoring rapid switch request'' (switchToTime tid s)
       \<and> loadRequests (switchToTime tid (switchToTime tid s)) = loadRequests s @ [(nextHandle s, tid)]
       \<and> activeTimeId (switchToTime tid (switchToTime tid s)) = activeTimeId s"
proof -
  have a: "switchLock (switchToTime tid s)" "activeTimeId (switchToTime tid s) = activeTimeId s"
     "loadRequests (switchToTime tid s) = loadRequests s @ [(nextHandle s, tid)]"
    using assms by (auto simp: switchToTime_def loadTimeState_def Let_def)
  from a(1) a(2) assms(2) have "switchToTime tid (switchToTime tid s)
           = log ''Switch locked, ignoring rapid switch request'' (switchToTime tid s)"
    by (simp add: switch_dropped)
  with a show ?thesis by simp
qed

text \<open>
  Claim C1. In every state the system can reach, at most one switch protocol is in
  progress. A call of \<open>switchToTime\<close> that finds the lock set returns with the state
  unchanged, apart from the console line it writes when the target is not the active
  time state; nothing is queued. When the lock is free and the target is a declared time
  state that was never loaded, the first call takes the lock and requests the load, and
  a second call made at once is dropped: one load request, the active id unchanged. In
  the session, two further requests for the secondary state while the first is in
  progress and during the cooldown leave exactly one completed switch and one load
  request for it.
\<close>

theorem switch_protocol_exclusive:
  "switches_in_flight (run es (TimeToggleSystem_new config)) \<le> 1
   \<and> (switchLock this \<longrightarrow>
        switchToTime timeId this =
          (if timeId = activeTimeId this then this
           else log ''Switch locked, ignoring rapid switch request'' this))
   \<and> (\<not> switchLock this2 \<and> timeId2 \<noteq> activeTimeId this2
        \<and> find (\<lambda>t. time_id t = timeId2) (tt_times this2) \<noteq> None
        \<and> loadingStates this2 timeId2 = None \<longrightarrow>
        switchLock (switchToTime timeId2 this2)
        \<and> switchToTime timeId2 (switchToTime timeId2 this2)
             = log ''Switch locked, ignoring rapid switch request'' (switchToTime timeId2 this2)
        \<and> loadRequests (switchToTime timeId2 (switchToTime timeId2 this2))
             = loadRequests this2 @ [(nextHandle this2, timeId2)]
        \<and> activeTimeId (switchToTime timeId2 (switchToTime timeId2 this2)) = activeTimeId this2)
   \<and> transitions (run [CallSwitchToTime ''secondary'', AssetReady 2, AnimationFrame, AnimationFrame,
                       CallSwitchToTime ''secondary'', CooldownTimeout] switching)
        = [(''secondary'', ''primary'')]
   \<and> loadRequests (run [CallSwitchToTime ''secondary'', AssetReady 2, AnimationFrame, AnimationFrame,
                       CallSwitchToTime ''secondary'', CooldownTimeout] switching)
        = [(0, ''primary''), (2, ''secondary'')]"
  using in_flight_le [of es config] switch_dropped [of this timeId]
    second_call_no_load [of this2 timeId2] scenario
  by blast

theorem switch_protocol_exclusive_witness:
  "switches_in_flight switching \<le> 1
   \<and> switchToTime ''secondary'' switching
        = log ''Switch locked, ignoring rapid switch request'' switching
   \<and> switchLock (switchToTime ''secondary'' initialised)
   \<and> loadRequests (switchToTime ''secondary'' (switchToTime ''secondary'' initialised))
        = [(0, ''primary''), (2, ''secondary'')]"
proof -
  have h: "switchLock switching" "''secondary'' \<noteq> activeTimeId switching"
    by (simp_all add: switching_eq initialised_eq)
  have g: "\<not> switchLock initialised" "''secondary'' \<noteq> activeTimeId initialised"
    "find (\<lambda>t. time_id t = ''secondary'') (tt_times initialised) \<noteq> None"
    "loadingStates initialised ''secondary'' = None"
    "nextHandle initialised = 2" "loadRequests initialised = [(0, ''primary'')]"
    by (simp_all add: initialised_eq shipped_times_def)
  note inst = switch_protocol_exclusive [of "[CallInitialize, AssetReady 0, CallSwitchToTime ''secondary'']"
      shipped_times switching "''secondary''" initialised "''secondary''", unfolded switching_run]
  from inst have c1: "switches_in_flight switching \<le> 1" by blast
  from inst h have c2: "switchToTime ''secondary'' switching
      = log ''Switch locked, ignoring rapid switch request'' switching" by simp
  from inst g(1-4) have c3: "switchLock (switchToTime ''secondary'' initialised)
     \<and> loadRequests (switchToTime ''secondary'' (switchToTime ''secondary'' initialised))
        = loadRequests initialised @ [(nextHandle initialised, ''secondary'')]" by blast
  from c1 c2 c3 g(5,6) show ?thesis by simp
qed

text \<open>
  Claim C10. If the load that a switch protocol awaits fails, then after any further
  events the lock is still set, the active time state and the completed switches are
  what they were, and a request to switch to any other time state is dropped. A task
  that releases the lock is the cooldown timeout, or ends by logging the missing
  entities.
\<close>

theorem failed_load_leaves_lock_set:
  "(find (\<lambda>l. fst l = asset) (loader (run es (TimeToggleSystem_new config)))
        = Some (asset, timeId, AwaitSwitch target) \<longrightarrow>
      switchLock (run es' (step (AssetError asset err) (run es (TimeToggleSystem_new config))))
      \<and> activeTimeId (run es' (step (AssetError asset err) (run es (TimeToggleSystem_new config))))
           = activeTimeId (run es (TimeToggleSystem_new config))
      \<and> transitions (run es' (step (AssetError asset err) (run es (TimeToggleSystem_new config))))
           = transitions (run es (TimeToggleSystem_new config))
      \<and> (t \<noteq> activeTimeId (run es (TimeToggleSystem_new config)) \<longrightarrow>
            switchToTime t (run es' (step (AssetError asset err) (run es (TimeToggleSystem_new config))))
              = log ''Switch locked, ignoring rapid switch request''
                  (run es' (step (AssetError asset err) (run es (TimeToggleSystem_new config))))))
   \<and> (switchLock this \<and> \<not> switchLock (step e this) \<longrightarrow>
        e = CooldownTimeout \<or> last (logged (step e this)) = ''Missing entities for transition'')"
proof -
  let ?s = "run es (TimeToggleSystem_new config)"
  let ?s' = "run es' (step (AssetError asset err) ?s)"
  have first: "switchLock ?s' \<and> activeTimeId ?s' = activeTimeId ?s \<and> transitions ?s' = transitions ?s
      \<and> (t \<noteq> activeTimeId ?s \<longrightarrow>
            switchToTime t ?s' = log ''Switch locked, ignoring rapid switch request'' ?s')"
    if f: "find (\<lambda>l. fst l = asset) (loader ?s) = Some (asset, timeId, AwaitSwitch target)"
  proof -
    have inv: "lock_inv ?s" by (rule lock_inv_run [OF lock_inv_new])
    from failed_switch_stuck [OF inv f, of err]
    have st: "stuck (step (AssetError asset err) ?s)"
      and act: "activeTimeId (step (AssetError asset err) ?s) = activeTimeId ?s" by simp_all
    have tr: "transitions (step (AssetError asset err) ?s) = transitions ?s"
      using f by (simp add: assetError_def Let_def settle_rejected)
    from same_run [OF st, of es'] have st': "stuck ?s'"
      and act': "activeTimeId ?s' = activeTimeId (step (AssetError asset err) ?s)"
      and tr': "transitions ?s' = transitions (step (AssetError asset err) ?s)"
      by (simp_all add: same_switch_state_def)
    from st' have lock: "switchLock ?s'" by (simp add: stuck_def)
    from lock act act' tr tr' show ?thesis by (simp add: switch_dropped)
  qed
  from first release_step [of this e] show ?thesis by blast
qed

theorem failed_load_leaves_lock_set_witness:
  "switchLock (run [CallToggle, AnimationFrame, CooldownTimeout, CallHandleKeyboard ''BracketRight'']
       (step (AssetError 2 ''404'') switching))
   \<and> activeTimeId (run [CallToggle, AnimationFrame, CooldownTimeout, CallHandleKeyboard ''BracketRight'']
       (step (AssetError 2 ''404'') switching)) = ''primary''
   \<and> switchToTime ''secondary''
        (run [CallToggle, AnimationFrame, CooldownTimeout, CallHandleKeyboard ''BracketRight'']
           (step (AssetError 2 ''404'') switching))
      = log ''Switch locked, ignoring rapid switch request''
        (run [CallToggle, AnimationFrame, CooldownTimeout, CallHandleKeyboard ''BracketRight'']
           (step (AssetError 2 ''404'') switching))
   \<and> last (logged (step (AssetReady 0)
        (step (CallSwitchToTime ''secondary'') (TimeToggleSystem_new shipped_times))))
      = ''Missing entities for transition''"
proof -
  have f: "find (\<lambda>l. fst l = 2) (loader switching) = Some (2, ''secondary'', AwaitSwitch ''secondary'')"
    by (simp add: switching_eq)
  have act: "activeTimeId switching = ''primary''" by (simp add: switching_eq initialised_eq)
  have l1: "switchLock (step (CallSwitchToTime ''secondary'') (TimeToggleSystem_new shipped_times))"
    by (simp add: tt_defs)
  have l2: "\<not> switchLock (step (AssetReady 0)
        (step (CallSwitchToTime ''secondary'') (TimeToggleSystem_new shipped_times)))"
    by (simp add: tt_defs)
  from failed_load_leaves_lock_set [of 2 "[CallInitialize, AssetReady 0, CallSwitchToTime ''secondary'']"
      shipped_times "''secondary''" "''secondary''"
      "[CallToggle, AnimationFrame, CooldownTimeout, CallHandleKeyboard ''BracketRight'']" "''404''"
      "''secondary''" "step (CallSwitchToTime ''secondary'') (TimeToggleSystem_new shipped_times)"
      "AssetReady 0"]
  show ?thesis unfolding switching_run using f act l1 l2 by simp
qed

subsection \<open>What the steps leave alone\<close>

lemma js_set_other [simp]: "t \<noteq> key \<Longrightarrow> js_set obj key v t = obj t"
  by (simp add: js_set_def)

lemma js_set_same: "key \<noteq> ''__proto__'' \<Longrightarrow> js_set obj key v key = Some v"
  by (simp add: js_set_def)

lemma js_set_proto [simp]: "js_set obj ''__proto__'' v = obj"
  by (simp add: js_set_def)

lemma switch_continue_frame [simp]:
  "tt_times (switch_continue tid s) = tt_times s"
  "activeTimeId (switch_continue tid s) = activeTimeId s"
  "splatEntities (switch_continue tid s) = splatEntities s"
  "splatAssets (switch_continue tid s) = splatAssets s"
  "loadingStates (switch_continue tid s) = loadingStates s"
  "nextHandle (switch_continue tid s) = nextHandle s"
  "loader (switch_continue tid s) = loader s"
  "pollers (switch_continue tid s) = pollers s"
  "cooldownTimers (switch_continue tid s) = cooldownTimers s"
  "loadRequests (switch_continue tid s) = loadRequests s"
  "settled (switch_continue tid s) = settled s"
  "transitions (switch_continue tid s) = transitions s"
  by (simp_all add: switch_continue_def split: option.splits)

lemma settle_frame [simp]:
  "tt_times (settle w out s) = tt_times s"
  "activeTimeId (settle w out s) = activeTimeId s"
  "splatEntities (settle w out s) = splatEntities s"
  "splatAssets (settle w out s) = splatAssets s"
  "loadingStates (settle w out s) = loadingStates s"
  "nextHandle (settle w out s) = nextHandle s"
  "loader (settle w out s) = loader s"
  "pollers (settle w out s) = pollers s"
  "cooldownTimers (settle w out s) = cooldownTimers s"
  "loadRequests (settle w out s) = loadRequests s"
  "transitions (settle w out s) = transitions s"
  by (cases w; cases out; simp add: settle_def)+

lemma tt_times_loadTimeState [simp]: "tt_times (loadTimeState tid w s) = tt_times s"
  by (simp add: loadTimeState_def Let_def split: option.splits)

lemma tt_times_switchToTime [simp]: "tt_times (switchToTime tid s) = tt_times s"
  by (simp add: switchToTime_def Let_def)

lemma tt_times_assetReady [simp]: "tt_times (assetReady a s) = tt_times s"
  by (simp add: assetReady_def Let_def split: option.splits prod.splits)

lemma tt_times_assetError [simp]: "tt_times (assetError a err s) = tt_times s"
  by (simp add: assetError_def Let_def split: option.splits prod.splits)

lemma tt_times_pollTick [simp]: "tt_times (pollTick i s) = tt_times s"
  by (simp add: pollTick_def split: prod.splits)

lemma fold_callbacks_frame:
  "tt_times (fold run_callback cbs s) = tt_times s
   \<and> splatEntities (fold run_callback cbs s) = splatEntities s
   \<and> loadingStates (fold run_callback cbs s) = loadingStates s
   \<and> nextHandle (fold run_callback cbs s) = nextHandle s
   \<and> loader (fold run_callback cbs s) = loader s
   \<and> pollers (fold run_callback cbs s) = pollers s
   \<and> loadRequests (fold run_callback cbs s) = loadRequests s
   \<and> settled (fold run_callback cbs s) = settled s"
proof (induction cbs arbitrary: s)
  case Nil
  then show ?case by simp
next
  case (Cons cb cbs)
  then show ?case by (cases cb) (simp_all add: switch_finish_def Let_def)
qed

lemma tt_times_animationFrame [simp]: "tt_times (animationFrame s) = tt_times s"
  using fold_callbacks_frame [of "frameCallbacks s" "s\<lparr>frameCallbacks := []\<rparr>"]
  by (simp add: animationFrame_def)

lemma tt_times_cooldownTimeout [simp]: "tt_times (cooldownTimeout s) = tt_times s"
  by (simp add: cooldownTimeout_def)

lemma tt_times_step [simp]: "tt_times (step e s) = tt_times s"
  by (cases e) (simp_all add: initialize_def toggle_def handleKeyboard_def Let_def split: option.splits)

lemma tt_times_run [simp]: "tt_times (run es s) = tt_times s"
  by (induction es arbitrary: s) simp_all

lemma declared_log [simp]: "declared (log m s) = declared s"
  by (simp add: declared_def)

lemma declared_settle [simp]: "declared (settle w out s) = declared s"
  by (simp add: declared_def)

lemma declared_step [simp]: "declared (step e s) = declared s"
  by (simp add: declared_def)

lemma declared_run [simp]: "declared (run es s) = declared s"
  by (simp add: declared_def)

lemma find_declared: "find (\<lambda>t. time_id t = tid) (tt_times s) = Some c \<Longrightarrow> tid \<in> declared s"
  by (auto simp: declared_def dest: find_SomeD)

lemma find_undeclared: "find (\<lambda>t. time_id t = tid) (tt_times s) = None \<Longrightarrow> tid \<notin> declared s"
  by (auto simp: declared_def find_None_iff)

subsection \<open>A failed load\<close>

lemma assetError_eq:
  assumes "find (\<lambda>l. fst l = asset) (loader this) = Some (asset, timeId, w)"
  shows "assetError asset err this =
      this\<lparr>loader := filter (\<lambda>l. fst l \<noteq> asset) (loader this),
           loadingStates := js_set (loadingStates this) timeId LoadError,
           settled := settled this @ [(w, Rejected err)],
           logged := logged this @ [''Error loading time state '' @ timeId @ '': '' @ err]\<rparr>"
  using assms by (simp add: assetError_def Let_def settle_rejected log_def)

text \<open>The error callback by itself changes the state of the time state, the list of
  loads in flight, the promise it settles and the console, and nothing else.\<close>

lemma load_failure_frame:
  assumes "find (\<lambda>l. fst l = asset) (loader this) = Some (asset, timeId, w)"
  shows "last (settled (assetError asset err this)) = (w, Rejected err)"
    and "timeId \<noteq> ''__proto__'' \<Longrightarrow> loadingStates (assetError asset err this) timeId = Some LoadError"
    and "activeTimeId (assetError asset err this) = activeTimeId this"
    and "splatEntities (assetError asset err this) = splatEntities this"
    and "entityEnabled (assetError asset err this) = entityEnabled this"
    and "active_shown (assetError asset err this) = active_shown this"
    and "switchLock (assetError asset err this) = switchLock this"
    and "transitions (assetError asset err this) = transitions this"
    and "pollers (assetError asset err this) = pollers this"
    and "loadRequests (assetError asset err this) = loadRequests this"
  unfolding assetError_eq [OF assms]
  by (simp_all add: active_shown_def js_set_same split: option.split)

subsection \<open>Loading\<close>

lemma load_loaded:
  assumes "find (\<lambda>t. time_id t = timeId) (tt_times this) \<noteq> None"
    "loadingStates this timeId = Some Loaded"
  shows "loadTimeState timeId (AwaitCaller c) this =
     (log (''Time state '' @ timeId @ '' already loaded'') this)
       \<lparr>settled := settled this @ [(AwaitCaller c, Resolved (js_get (splatEntities this) timeId))]\<rparr>"
  using assms by (auto simp: loadTimeState_def settle_caller)

lemma load_loading:
  assumes "find (\<lambda>t. time_id t = timeId) (tt_times this) \<noteq> None"
    "loadingStates this timeId = Some Loading"
  shows "loadTimeState timeId w this =
     (log (''Time state '' @ timeId @ '' already loading, waiting...'') this)
       \<lparr>pollers := pollers this @ [(timeId, w)]\<rparr>"
  using assms by (auto simp: loadTimeState_def)

text \<open>A tick of a polling interval does nothing until the time state is loaded: the
  caller goes on waiting.\<close>

lemma pollTick_waits:
  "i < length (pollers this) \<Longrightarrow> loadingStates this (fst (pollers this ! i)) \<noteq> Some Loaded
     \<Longrightarrow> pollTick i this = this"
  by (cases "pollers this ! i") (simp add: pollTick_def)

lemma pollTick_out_of_range: "\<not> i < length (pollers this) \<Longrightarrow> pollTick i this = this"
  by (simp add: pollTick_def)

lemma load_waiting_same_handle:
  assumes k: "find (\<lambda>t. time_id t = timeId) (tt_times this) \<noteq> None"
    and l: "loadingStates this timeId = Some Loading"
    and f: "find (\<lambda>l. fst l = asset) (loader this) = Some (asset, timeId, AwaitCaller c1)"
    and np: "timeId \<noteq> ''__proto__''"
  shows "pollTick (length (pollers this)) (loadTimeState timeId (AwaitCaller c2) this)
           = loadTimeState timeId (AwaitCaller c2) this"
    and "settled (pollTick (length (pollers this))
            (assetReady asset (loadTimeState timeId (AwaitCaller c2) this)))
         = settled this @ [(AwaitCaller c1, Resolved (Some (Entity (nextHandle this)))),
                           (AwaitCaller c2, Resolved (Some (Entity (nextHandle this))))]"
    and "loadRequests (pollTick (length (pollers this))
            (assetReady asset (loadTimeState timeId (AwaitCaller c2) this))) = loadRequests this"
proof -
  let ?s1 = "loadTimeState timeId (AwaitCaller c2) this"
  have s1: "?s1 = (log (''Time state '' @ timeId @ '' already loading, waiting...'') this)
       \<lparr>pollers := pollers this @ [(timeId, AwaitCaller c2)]\<rparr>"
    by (rule load_loading [OF k l])
  show "pollTick (length (pollers this)) ?s1 = ?s1"
    using l by (intro pollTick_waits) (simp_all add: s1)
  let ?s2 = "assetReady asset ?s1"
  have f1: "find (\<lambda>l. fst l = asset) (loader ?s1) = Some (asset, timeId, AwaitCaller c1)"
    using f by (simp add: s1)
  have s2: "pollers ?s2 = pollers this @ [(timeId, AwaitCaller c2)]"
    "loadingStates ?s2 timeId = Some Loaded"
    "splatEntities ?s2 timeId = Some (nextHandle this)"
    "settled ?s2 = settled this @ [(AwaitCaller c1, Resolved (Some (Entity (nextHandle this))))]"
    "loadRequests ?s2 = loadRequests this"
    using f1 np by (simp_all add: assetReady_def Let_def settle_caller js_set_def) (simp_all add: s1)
  show "settled (pollTick (length (pollers this)) ?s2)
         = settled this @ [(AwaitCaller c1, Resolved (Some (Entity (nextHandle this)))),
                           (AwaitCaller c2, Resolved (Some (Entity (nextHandle this))))]"
    using s2 by (simp add: pollTick_def settle_caller js_get_def)
  show "loadRequests (pollTick (length (pollers this)) ?s2) = loadRequests this"
    using s2 by (simp add: pollTick_def settle_caller)
qed

lemma load_twice_one_request:
  assumes "find (\<lambda>t. time_id t = timeId) (tt_times this) \<noteq> None"
    "loadingStates this timeId \<noteq> Some Loaded" "loadingStates this timeId \<noteq> Some Loading"
    "timeId \<noteq> ''__proto__''"
  shows "loadRequests (loadTimeState timeId w2 (loadTimeState timeId w1 this))
         = loadRequests this @ [(nextHandle this, timeId)]"
proof -
  let ?s1 = "loadTimeState timeId w1 this"
  have s1: "loadingStates ?s1 timeId = Some Loading"
    "loadRequests ?s1 = loadRequests this @ [(nextHandle this, timeId)]"
    using assms by (auto simp: loadTimeState_def Let_def js_set_def)
  from assms(1) have k: "find (\<lambda>t. time_id t = timeId) (tt_times ?s1) \<noteq> None" by simp
  show ?thesis by (simp add: load_loading [OF k s1(1)] s1(2))
qed

subsection \<open>Loads in flight\<close>

lemma loads_inv_cong:
  "loader s' = loader s \<Longrightarrow> loadingStates s' = loadingStates s \<Longrightarrow> tt_times s' = tt_times s
     \<Longrightarrow> loads_inv s' = loads_inv s"
  by (simp add: loads_inv_def declared_def)

lemma loads_inv_settle [simp]: "loads_inv (settle w out s) = loads_inv s"
  by (rule loads_inv_cong) simp_all

lemma loads_inv_log [simp]: "loads_inv (log m s) = loads_inv s"
  by (rule loads_inv_cong) simp_all

lemma loads_inv_switch_continue [simp]: "loads_inv (switch_continue tid s) = loads_inv s"
  by (rule loads_inv_cong) simp_all

lemma loads_inv_loadTimeState:
  assumes inv: "loads_inv s" and np: "''__proto__'' \<notin> declared s"
  shows "loads_inv (loadTimeState tid w s)"
proof -
  have poll: "loads_inv ((log m s)\<lparr>pollers := ps\<rparr>)" for m ps
    using inv by (simp add: loads_inv_def declared_def)
  have new: "loads_inv ((log m (s\<lparr>loadingStates := js_set (loadingStates s) tid Loading\<rparr>))
        \<lparr>nextHandle := n, splatAssets := sa, loader := loader s @ [(a, tid, w)], loadRequests := lr\<rparr>)"
    if "loadingStates s tid \<noteq> Some Loading" "tid \<in> declared s" for m n sa a lr
  proof -
    from that(2) np have "tid \<noteq> ''__proto__''" by auto
    then show ?thesis
      using inv that by (auto simp: loads_inv_def declared_def js_set_def)
  qed
  show ?thesis
    unfolding loadTimeState_def Let_def
    using inv poll new by (auto split: option.splits dest: find_declared)
qed

lemma loads_inv_remove:
  assumes inv: "loads_inv s" and f: "find (\<lambda>l. fst l = a) (loader s) = Some (a', tid, w)"
  shows "loads_inv (s\<lparr>loader := filter (\<lambda>l. fst l \<noteq> a) (loader s),
                       loadingStates := js_set (loadingStates s) tid st\<rparr>)"
proof -
  from find_SomeD [OF f] have mem: "(a', tid, w) \<in> set (loader s)" and a: "a' = a" by auto
  from inv have d: "distinct (map (\<lambda>l. fst (snd l)) (loader s))" by (simp add: loads_inv_def)
  have other: "fst (snd l) \<noteq> tid" if "l \<in> set (loader s)" "fst l \<noteq> a" for l
  proof
    assume eq: "fst (snd l) = tid"
    from d have "inj_on (\<lambda>l. fst (snd l)) (set (loader s))" by (simp add: distinct_map)
    from inj_onD [OF this, of l "(a', tid, w)"] eq mem that(1)
    have "l = (a', tid, w)" by simp
    with a that(2) show False by simp
  qed
  have "distinct (map (\<lambda>l. fst (snd l)) (filter (\<lambda>l. fst l \<noteq> a) (loader s)))"
    using d by (rule distinct_map_filter)
  then show ?thesis using inv other by (auto simp: loads_inv_def declared_def)
qed

lemma loads_inv_assetReady: "loads_inv s \<Longrightarrow> loads_inv (assetReady a s)"
proof (cases "find (\<lambda>l. fst l = a) (loader s)")
  case None
  assume "loads_inv s"
  with None show ?thesis by (simp add: assetReady_def)
next
  case (Some l)
  assume inv: "loads_inv s"
  obtain a' tid w where l: "l = (a', tid, w)" by (cases l) auto
  from loads_inv_remove [OF inv Some [unfolded l], of Loaded]
  have "loads_inv (s\<lparr>nextHandle := nextHandle s + 1,
                loader := filter (\<lambda>l. fst l \<noteq> a) (loader s),
                entityEnabled := (entityEnabled s)(nextHandle s \<mapsto> (tid = activeTimeId s)),
                splatEntities := (splatEntities s)(tid \<mapsto> nextHandle s),
                loadingStates := js_set (loadingStates s) tid Loaded\<rparr>)"
    by (simp add: loads_inv_def declared_def)
  with Some l show ?thesis by (simp add: assetReady_def Let_def)
qed

lemma loads_inv_assetError: "loads_inv s \<Longrightarrow> loads_inv (assetError a err s)"
proof (cases "find (\<lambda>l. fst l = a) (loader s)")
  case None
  assume "loads_inv s"
  with None show ?thesis by (simp add: assetError_def)
next
  case (Some l)
  assume inv: "loads_inv s"
  obtain a' tid w where l: "l = (a', tid, w)" by (cases l) auto
  from loads_inv_remove [OF inv Some [unfolded l], of LoadError]
  have "loads_inv ((log (''Error loading time state '' @ tid @ '': '' @ err)
           (s\<lparr>loader := filter (\<lambda>l. fst l \<noteq> a) (loader s)\<rparr>))
          \<lparr>loadingStates := js_set (loadingStates s) tid LoadError\<rparr>)"
    by (simp add: loads_inv_def declared_def)
  with Some l show ?thesis by (simp add: assetError_def Let_def)
qed

lemma loads_inv_switchToTime:
  "loads_inv s \<Longrightarrow> ''__proto__'' \<notin> declared s \<Longrightarrow> loads_inv (switchToTime tid s)"
proof -
  assume inv: "loads_inv s" and np: "''__proto__'' \<notin> declared s"
  then have "loads_inv (log m (s\<lparr>switchLock := True\<rparr>))"
     "''__proto__'' \<notin> declared (log m (s\<lparr>switchLock := True\<rparr>))" for m
    by (simp_all add: loads_inv_def declared_def)
  with inv show ?thesis
    by (simp add: switchToTime_def Let_def loads_inv_loadTimeState)
qed

lemma loads_inv_pollTick: "loads_inv s \<Longrightarrow> loads_inv (pollTick i s)"
proof -
  assume inv: "loads_inv s"
  then have "loads_inv (s\<lparr>pollers := ps\<rparr>)" for ps by (simp add: loads_inv_def declared_def)
  with inv show ?thesis by (simp add: pollTick_def split: prod.splits)
qed

lemma loads_inv_animationFrame: "loads_inv s \<Longrightarrow> loads_inv (animationFrame s)"
  using fold_callbacks_frame [of "frameCallbacks s" "s\<lparr>frameCallbacks := []\<rparr>"]
  by (simp add: animationFrame_def loads_inv_def declared_def)

lemma loads_inv_cooldownTimeout: "loads_inv s \<Longrightarrow> loads_inv (cooldownTimeout s)"
  by (simp add: cooldownTimeout_def loads_inv_def declared_def)

lemma loads_inv_step:
  "loads_inv s \<Longrightarrow> ''__proto__'' \<notin> declared s \<Longrightarrow> loads_inv (step e s)"
proof (cases e)
  case CallToggle
  assume "loads_inv s" "''__proto__'' \<notin> declared s"
  then show ?thesis using CallToggle
    by (simp add: toggle_def loads_inv_switchToTime split: option.splits)
next
  case (CallHandleKeyboard k)
  assume "loads_inv s" "''__proto__'' \<notin> declared s"
  then show ?thesis using CallHandleKeyboard
    by (simp add: handleKeyboard_def loads_inv_switchToTime Let_def)
qed (simp_all add: initialize_def loads_inv_loadTimeState loads_inv_switchToTime
       loads_inv_assetReady loads_inv_assetError loads_inv_pollTick loads_inv_animationFrame
       loads_inv_cooldownTimeout)

lemma loads_inv_new: "loads_inv (TimeToggleSystem_new cfg)"
  by (simp add: loads_inv_def TimeToggleSystem_new_def)

lemma loads_inv_run:
  "loads_inv s \<Longrightarrow> ''__proto__'' \<notin> declared s \<Longrightarrow> loads_inv (run es s)"
  by (induction es arbitrary: s) (simp_all add: loads_inv_step)

text \<open>
  For a declared time state not named \<open>__proto__\<close>: if it is loaded, \<open>loadTimeState\<close>
  resolves at once with the existing entity and changes nothing but the console; if it is
  loading, the caller only starts to poll, a tick of its interval before the load is
  ready changes nothing, and once the load in flight is ready both the first caller and
  the polling caller receive the same entity, with no further load request; two calls for
  a time state that is neither loaded nor loading issue exactly one load request. When
  no declared time state is named \<open>__proto__\<close>, the loads in flight are for different time
  states in every state the system can reach.
\<close>

lemma loadTimeState_ordinary_ids:
  "(find (\<lambda>t. time_id t = timeId) (tt_times this) \<noteq> None
      \<and> loadingStates this timeId = Some Loaded \<longrightarrow>
        loadTimeState timeId (AwaitCaller c) this =
          (log (''Time state '' @ timeId @ '' already loaded'') this)
            \<lparr>settled := settled this @ [(AwaitCaller c, Resolved (js_get (splatEntities this) timeId))]\<rparr>)
   \<and> (find (\<lambda>t. time_id t = timeId2) (tt_times this2) \<noteq> None
      \<and> loadingStates this2 timeId2 = Some Loading \<longrightarrow>
        loadTimeState timeId2 (AwaitCaller c2) this2 =
          (log (''Time state '' @ timeId2 @ '' already loading, waiting...'') this2)
            \<lparr>pollers := pollers this2 @ [(timeId2, AwaitCaller c2)]\<rparr>)
   \<and> (i < length (pollers this5) \<and> loadingStates this5 (fst (pollers this5 ! i)) \<noteq> Some Loaded \<longrightarrow>
        pollTick i this5 = this5)
   \<and> (find (\<lambda>t. time_id t = timeId2) (tt_times this2) \<noteq> None
      \<and> loadingStates this2 timeId2 = Some Loading \<and> timeId2 \<noteq> ''__proto__''
      \<and> find (\<lambda>l. fst l = asset) (loader this2) = Some (asset, timeId2, AwaitCaller c1) \<longrightarrow>
        pollTick (length (pollers this2)) (loadTimeState timeId2 (AwaitCaller c2) this2)
          = loadTimeState timeId2 (AwaitCaller c2) this2
        \<and> settled (pollTick (length (pollers this2))
                  (assetReady asset (loadTimeState timeId2 (AwaitCaller c2) this2)))
          = settled this2 @ [(AwaitCaller c1, Resolved (Some (Entity (nextHandle this2)))),
                             (AwaitCaller c2, Resolved (Some (Entity (nextHandle this2))))]
        \<and> loadRequests (pollTick (length (pollers this2))
                  (assetReady asset (loadTimeState timeId2 (AwaitCaller c2) this2)))
          = loadRequests this2)
   \<and> (find (\<lambda>t. time_id t = timeId3) (tt_times this3) \<noteq> None
      \<and> loadingStates this3 timeId3 \<noteq> Some Loaded \<and> loadingStates this3 timeId3 \<noteq> Some Loading
      \<and> timeId3 \<noteq> ''__proto__'' \<longrightarrow>
        loadRequests (loadTimeState timeId3 (AwaitCaller c4) (loadTimeState timeId3 (AwaitCaller c3) this3))
          = loadRequests this3 @ [(nextHandle this3, timeId3)])
   \<and> (''__proto__'' \<notin> time_id ` set (cfg_times config) \<longrightarrow>
        distinct (map (\<lambda>l. fst (snd l)) (loader (run es (TimeToggleSystem_new config)))))"
proof (intro conjI impI; (elim conjE)?)
  assume "find (\<lambda>t. time_id t = timeId) (tt_times this) \<noteq> None"
    "loadingStates this timeId = Some Loaded"
  then show "loadTimeState timeId (AwaitCaller c) this =
          (log (''Time state '' @ timeId @ '' already loaded'') this)
            \<lparr>settled := settled this @ [(AwaitCaller c, Resolved (js_get (splatEntities this) timeId))]\<rparr>"
    by (rule load_loaded)
next
  assume "find (\<lambda>t. time_id t = timeId2) (tt_times this2) \<noteq> None"
    "loadingStates this2 timeId2 = Some Loading"
  then show "loadTimeState timeId2 (AwaitCaller c2) this2 =
          (log (''Time state '' @ timeId2 @ '' already loading, waiting...'') this2)
            \<lparr>pollers := pollers this2 @ [(timeId2, AwaitCaller c2)]\<rparr>"
    by (rule load_loading)
next
  assume "i < length (pollers this5)" "loadingStates this5 (fst (pollers this5 ! i)) \<noteq> Some Loaded"
  then show "pollTick i this5 = this5" by (rule pollTick_waits)
next
  assume a: "find (\<lambda>t. time_id t = timeId2) (tt_times this2) \<noteq> None"
    "loadingStates this2 timeId2 = Some Loading" "timeId2 \<noteq> ''__proto__''"
    "find (\<lambda>l. fst l = asset) (loader this2) = Some (asset, timeId2, AwaitCaller c1)"
  show "pollTick (length (pollers this2)) (loadTimeState timeId2 (AwaitCaller c2) this2)
          = loadTimeState timeId2 (AwaitCaller c2) this2"
    by (rule load_waiting_same_handle(1) [OF a(1,2,4,3)])
next
  assume a: "find (\<lambda>t. time_id t = timeId2) (tt_times this2) \<noteq> None"
    "loadingStates this2 timeId2 = Some Loading" "timeId2 \<noteq> ''__proto__''"
    "find (\<lambda>l. fst l = asset) (loader this2) = Some (asset, timeId2, AwaitCaller c1)"
  show "settled (pollTick (length (pollers this2))
                  (assetReady asset (loadTimeState timeId2 (AwaitCaller c2) this2)))
          = settled this2 @ [(AwaitCaller c1, Resolved (Some (Entity (nextHandle this2)))),
                             (AwaitCaller c2, Resolved (Some (Entity (nextHandle this2))))]"
    by (rule load_waiting_same_handle(2) [OF a(1,2,4,3)])
next
  assume a: "find (\<lambda>t. time_id t = timeId2) (tt_times this2) \<noteq> None"
    "loadingStates this2 timeId2 = Some Loading" "timeId2 \<noteq> ''__proto__''"
    "find (\<lambda>l. fst l = asset) (loader this2) = Some (asset, timeId2, AwaitCaller c1)"
  show "loadRequests (pollTick (length (pollers this2))
                  (assetReady asset (loadTimeState timeId2 (AwaitCaller c2) this2)))
          = loadRequests this2"
    by (rule load_waiting_same_handle(3) [OF a(1,2,4,3)])
next
  assume "find (\<lambda>t. time_id t = timeId3) (tt_times this3) \<noteq> None"
    "loadingStates this3 timeId3 \<noteq> Some Loaded" "loadingStates this3 timeId3 \<noteq> Some Loading"
    "timeId3 \<noteq> ''__proto__''"
  then show "loadRequests (loadTimeState timeId3 (AwaitCaller c4) (loadTimeState timeId3 (AwaitCaller c3) this3))
          = loadRequests this3 @ [(nextHandle this3, timeId3)]"
    by (rule load_twice_one_request)
next
  assume "''__proto__'' \<notin> time_id ` set (cfg_times config)"
  then have "''__proto__'' \<notin> declared (TimeToggleSystem_new config)"
    by (simp add: declared_def TimeToggleSystem_new_def)
  from loads_inv_run [OF loads_inv_new this, of es]
  show "distinct (map (\<lambda>l. fst (snd l)) (loader (run es (TimeToggleSystem_new config))))"
    by (simp add: loads_inv_def)
qed

text \<open>
  Claim C2, evaluated where it fails. With a time state named \<open>__proto__\<close> declared, its
  state cannot be recorded: two calls of \<open>loadTimeState\<close> for it, the second before the
  first load has completed, both reach the asset loader, and the second caller does not
  wait for the load in flight.
\<close>

theorem loadTimeState_proto_loads_twice:
  "find (\<lambda>t. time_id t = ''__proto__'') (tt_times (TimeToggleSystem_new proto_times)) \<noteq> None
   \<and> loadRequests (run [CallLoadTimeState ''__proto__'' 1, CallLoadTimeState ''__proto__'' 2]
        (TimeToggleSystem_new proto_times)) = [(0, ''__proto__''), (1, ''__proto__'')]
   \<and> loader (run [CallLoadTimeState ''__proto__'' 1, CallLoadTimeState ''__proto__'' 2]
        (TimeToggleSystem_new proto_times))
        = [(0, ''__proto__'', AwaitCaller 1), (1, ''__proto__'', AwaitCaller 2)]
   \<and> pollers (run [CallLoadTimeState ''__proto__'' 1, CallLoadTimeState ''__proto__'' 2]
        (TimeToggleSystem_new proto_times)) = []
   \<and> loadingStates (run [CallLoadTimeState ''__proto__'' 1, CallLoadTimeState ''__proto__'' 2]
        (TimeToggleSystem_new proto_times)) ''__proto__'' = None"
  by (simp add: TimeToggleSystem_new_def proto_times_def loadTimeState_def Let_def log_def
      js_set_def)

lemma loading_secondary_eq:
  "loading_secondary = initialised\<lparr>
      loadingStates := [''primary'' \<mapsto> Loaded, ''secondary'' \<mapsto> Loading],
      nextHandle := 3, splatAssets := [''primary'' \<mapsto> 0, ''secondary'' \<mapsto> 2],
      loader := [(2, ''secondary'', AwaitCaller 1)],
      loadRequests := [(0, ''primary''), (2, ''secondary'')],
      logged := [''Loading time state: primary'', ''Time state loaded: primary'',
         ''Loading time state: secondary'']\<rparr>"
  by (simp add: loading_secondary_def initialised_eq tt_defs)

lemma failed_poller_waits:
  "settled (run [CallLoadTimeState ''secondary'' 2, AssetError 2 ''404'', PollTick 0, PollTick 0]
         loading_secondary) = settled loading_secondary @ [(AwaitCaller 1, Rejected ''404'')]
   \<and> pollers (run [CallLoadTimeState ''secondary'' 2, AssetError 2 ''404'', PollTick 0, PollTick 0]
         loading_secondary) = [(''secondary'', AwaitCaller 2)]"
proof -
  let ?s1 = "loadTimeState ''secondary'' (AwaitCaller 2) loading_secondary"
  have k: "find (\<lambda>t. time_id t = ''secondary'') (tt_times loading_secondary) \<noteq> None"
    "loadingStates loading_secondary ''secondary'' = Some Loading"
    by (simp_all add: loading_secondary_eq initialised_eq shipped_times_def)
  have s1: "?s1 = (log (''Time state '' @ ''secondary'' @ '' already loading, waiting...'') loading_secondary)
       \<lparr>pollers := pollers loading_secondary @ [(''secondary'', AwaitCaller 2)]\<rparr>"
    by (rule load_loading [OF k])
  have f: "find (\<lambda>l. fst l = 2) (loader ?s1) = Some (2, ''secondary'', AwaitCaller 1)"
    by (simp add: s1) (simp add: loading_secondary_eq)
  let ?s2 = "assetError 2 ''404'' ?s1"
  have p2: "pollers ?s2 = [(''secondary'', AwaitCaller 2)]"
    using load_failure_frame(9) [OF f, of "''404''"] by (simp add: s1) (simp add: loading_secondary_eq initialised_eq)
  have l2: "loadingStates ?s2 ''secondary'' = Some LoadError"
    using load_failure_frame(2) [OF f, of "''404''"] by simp
  have t2: "settled ?s2 = settled loading_secondary @ [(AwaitCaller 1, Rejected ''404'')]"
    by (simp add: assetError_eq [OF f]) (simp add: s1)
  have w: "pollTick 0 ?s2 = ?s2"
    by (rule pollTick_waits) (simp_all add: p2 l2)
  show ?thesis by (simp add: w p2 t2)
qed

lemma failed_switch_session:
  "loadingStates (step (AssetError 2 ''404'') switching) ''secondary'' = Some LoadError"
  "settled (step (AssetError 2 ''404'') switching)
       = settled initialised @ [(AwaitSwitch ''secondary'', Rejected ''404'')]"
  "activeTimeId (step (AssetError 2 ''404'') switching) = ''primary''"
  "active_shown (step (AssetError 2 ''404'') switching)"
  "stuck (step (AssetError 2 ''404'') switching)"
proof -
  have f: "find (\<lambda>l. fst l = 2) (loader switching) = Some (2, ''secondary'', AwaitSwitch ''secondary'')"
    by (simp add: switching_eq)
  have inv: "lock_inv switching"
    unfolding switching_def initialised_def
    by (intro lock_inv_step lock_inv_run lock_inv_new)
  from failed_switch_stuck [OF inv f, of "''404''"]
  show "stuck (step (AssetError 2 ''404'') switching)" by simp
  from load_failure_frame(2) [OF f, of "''404''"]
  show "loadingStates (step (AssetError 2 ''404'') switching) ''secondary'' = Some LoadError" by simp
  show "settled (step (AssetError 2 ''404'') switching)
       = settled initialised @ [(AwaitSwitch ''secondary'', Rejected ''404'')]"
    by (simp add: assetError_eq [OF f]) (simp add: switching_eq)
  from load_failure_frame(3) [OF f, of "''404''"]
  show "activeTimeId (step (AssetError 2 ''404'') switching) = ''primary''"
    by (simp add: switching_eq initialised_eq)
  have "active_shown switching" by (simp add: switching_eq initialised_eq active_shown_def)
  with load_failure_frame(6) [OF f, of "''404''"]
  show "active_shown (step (AssetError 2 ''404'') switching)" by simp
qed

text \<open>
  Claim C8, evaluated where it fails. The session: the primary time state is loaded and
  shown, the lock is free; the user asks for the secondary one and its load fails. The
  time state is marked as failed, the request is rejected with the cause, and the primary
  time state is still active and shown; but the lock the request had set stays set
  whatever happens afterwards, and a later request is dropped. A second caller that was
  polling for the failed load is neither resolved nor rejected: its interval goes on.
\<close>

theorem failed_switch_request_keeps_lock:
  "\<not> switchLock initialised
   \<and> loadingStates (step (AssetError 2 ''404'') (step (CallSwitchToTime ''secondary'') initialised))
        ''secondary'' = Some LoadError
   \<and> settled (step (AssetError 2 ''404'') (step (CallSwitchToTime ''secondary'') initialised))
       = settled initialised @ [(AwaitSwitch ''secondary'', Rejected ''404'')]
   \<and> activeTimeId (step (AssetError 2 ''404'') (step (CallSwitchToTime ''secondary'') initialised))
       = ''primary''
   \<and> active_shown (step (AssetError 2 ''404'') (step (CallSwitchToTime ''secondary'') initialised))
   \<and> switchLock
        (run es (step (AssetError 2 ''404'') (step (CallSwitchToTime ''secondary'') initialised)))
   \<and> toggle (run es (step (AssetError 2 ''404'') (step (CallSwitchToTime ''secondary'') initialised)))
       = log ''Switch locked, ignoring rapid switch request''
           (run es (step (AssetError 2 ''404'') (step (CallSwitchToTime ''secondary'') initialised)))
   \<and> settled (run [CallLoadTimeState ''secondary'' 2, AssetError 2 ''404'', PollTick 0, PollTick 0]
         loading_secondary)
       = settled loading_secondary @ [(AwaitCaller 1, Rejected ''404'')]
   \<and> pollers (run [CallLoadTimeState ''secondary'' 2, AssetError 2 ''404'', PollTick 0, PollTick 0]
         loading_secondary) = [(''secondary'', AwaitCaller 2)]"
proof -
  let ?s = "step (AssetError 2 ''404'') switching"
  note fs = failed_switch_session
  from same_run [OF fs(5), of es] have st': "stuck (run es ?s)"
    and act': "activeTimeId (run es ?s) = activeTimeId ?s"
    by (simp_all add: same_switch_state_def)
  from st' have lock: "switchLock (run es ?s)" by (simp add: stuck_def)
  have fnd: "find (\<lambda>t. time_id t \<noteq> ''primary'') (cfg_times shipped_times)
      = Some \<lparr>time_id = ''secondary'', time_label = ''After'', time_path = ''./splats/secondary/''\<rparr>"
    by (simp add: shipped_times_def)
  have tt: "tt_times (run es ?s) = cfg_times shipped_times"
    by (simp add: switching_eq initialised_eq)
  have tg: "toggle (run es ?s) = log ''Switch locked, ignoring rapid switch request'' (run es ?s)"
    unfolding toggle_def tt act' fs(3) fnd using lock act' fs(3)
    by (simp add: switch_dropped)
  have l0: "\<not> switchLock initialised" by (simp add: initialised_eq)
  show ?thesis
    unfolding switching_def [symmetric]
    using l0 fs(1-4) lock tg failed_poller_waits by (intro conjI) simp_all
qed

subsection \<open>The active time state\<close>

text \<open>The switch to the secondary time state, step by step: while the two frames are
  awaited both time states are shown and the primary one is the active one; afterwards
  the secondary one alone is shown and active.\<close>

lemma handoff_session:
  "map time_id (visible_variants (run [AssetReady 2] switching)) = [''primary'', ''secondary'']"
  "activeTimeId (run [AssetReady 2] switching) = ''primary''"
  "map time_id (visible_variants (run [AssetReady 2, AnimationFrame] switching)) = [''primary'', ''secondary'']"
  "activeTimeId (run [AssetReady 2, AnimationFrame] switching) = ''primary''"
  "map time_id (visible_variants (run [AssetReady 2, AnimationFrame, AnimationFrame] switching)) = [''secondary'']"
  "activeTimeId (run [AssetReady 2, AnimationFrame, AnimationFrame] switching) = ''secondary''"
  by (simp_all add: switching_eq initialised_eq tt_defs visible_variants_def)

text \<open>
  Claim C9, evaluated where it fails. The session: \<open>initialize\<close> has returned, the
  primary time state is the one active time state, loaded and shown. A request to switch
  to \<open>constructor\<close>, which is not a declared time state, is not refused: the lookup of its
  entity yields the member that every plain object inherits, so the switch protocol runs
  to its end. After the two frames the active id names no declared time state and no
  time state is shown.
\<close>

theorem switch_to_constructor_leaves_none_active:
  "initialization_complete initialised
   \<and> map time_id (filter (\<lambda>t. time_id t = activeTimeId initialised) (tt_times initialised)) = [''primary'']
   \<and> map time_id (visible_variants initialised) = [''primary'']
   \<and> ''constructor'' \<notin> declared initialised
   \<and> activeTimeId (run [CallSwitchToTime ''constructor'', AnimationFrame, AnimationFrame] initialised)
        = ''constructor''
   \<and> filter (\<lambda>t. time_id t
                   = activeTimeId (run [CallSwitchToTime ''constructor'', AnimationFrame, AnimationFrame] initialised))
         (tt_times (run [CallSwitchToTime ''constructor'', AnimationFrame, AnimationFrame] initialised)) = []
   \<and> visible_variants (run [CallSwitchToTime ''constructor'', AnimationFrame, AnimationFrame] initialised) = []
   \<and> \<not> active_shown (run [CallSwitchToTime ''constructor'', AnimationFrame, AnimationFrame] initialised)
   \<and> transitions (run [CallSwitchToTime ''constructor'', AnimationFrame, AnimationFrame] initialised)
        = [(''constructor'', ''primary'')]"
  by (simp add: initialised_eq tt_defs visible_variants_def active_shown_def declared_def
      initialization_complete_def)

end
